theory Spec2Isabelle
  imports Complex_Main "HOL-Library.Char_ord"
begin

text \<open>
  A model of the fluent regular-expression builder of \<^verbatim>\<open>src/SolidExpression.js\<close>: the
  class \<^verbatim>\<open>SolidExpression\<close>, its entry point \<^verbatim>\<open>Sx\<close> and the two tests of the repository,
  over the node algebra and the serializer the class imports. Instances are references
  into a store, so that the identity of an instance and what a call leaves unchanged can
  be stated; the root wrappers and nodes they hold are values.
\<close>

section \<open>Host values\<close>

text \<open>
  The fluent adapter \<^verbatim>\<open>SolidExpression.js\<close> receives JavaScript values and dispatches on
  their run-time kind. A number is a double: not-a-number, an infinity (the flag is its
  sign, \<open>True\<close> for the negative one) or a finite value, which is a rational. A native
  regular expression is seen through its \<^verbatim>\<open>source\<close> and \<^verbatim>\<open>flags\<close>. An expression instance
  is an object, so it is a reference into the store of instances. Every other kind of
  value (booleans, arrays, plain objects, functions, symbols) carries nothing the adapter
  reads.
\<close>

datatype jsnum = JNaN | JInf bool | JFin rat

record RegExp =
  re_source :: string
  re_flags :: string

type_synonym ref = nat

datatype jsvalue =
    JUndefined
  | JNull
  | JBool bool
  | JNumber jsnum
  | JString string
  | JRegExp RegExp
  | JExpr ref
  | JObject

text \<open>
  \<^verbatim>\<open>x | 0\<close> is the host's ToInt32: not-a-number and the infinities give 0, a finite value
  is truncated towards zero and wrapped into the signed 32-bit range.
\<close>

definition js_trunc :: "rat \<Rightarrow> int" where
  "js_trunc q = (if q < 0 then - \<lfloor>- q\<rfloor> else \<lfloor>q\<rfloor>)"

fun toInt32 :: "jsnum \<Rightarrow> int" where
  "toInt32 JNaN = 0"
| "toInt32 (JInf _) = 0"
| "toInt32 (JFin q) = (js_trunc q + 2 ^ 31) mod 2 ^ 32 - 2 ^ 31"

text \<open>
  The expression \<^verbatim>\<open>x != null ? x | 0 : void 0\<close> of \<^verbatim>\<open>repeat\<close> and \<^verbatim>\<open>repeatExactly\<close>:
  \<open>None\<close> is an argument that is omitted, \<^verbatim>\<open>undefined\<close> or \<^verbatim>\<open>null\<close>.
\<close>

definition intOrUndefined :: "jsnum option \<Rightarrow> int option" where
  "intOrUndefined x = (case x of None \<Rightarrow> None | Some v \<Rightarrow> Some (toInt32 v))"

section \<open>Strings\<close>

definition backslash :: char where
  "backslash = CHR 0x5C"

definition startsWith :: "string \<Rightarrow> char \<Rightarrow> bool" where
  "startsWith s c = (case s of [] \<Rightarrow> False | x # _ \<Rightarrow> x = c)"

definition endsWith :: "string \<Rightarrow> char \<Rightarrow> bool" where
  "endsWith s c = (case rev s of [] \<Rightarrow> False | x # _ \<Rightarrow> x = c)"

text \<open>\<^verbatim>\<open>s.replace(/^\^/, "")\<close> and \<^verbatim>\<open>s.replace(/\$$/, "")\<close>.\<close>

definition dropLeading :: "char \<Rightarrow> string \<Rightarrow> string" where
  "dropLeading c s = (if startsWith s c then tl s else s)"

definition dropTrailing :: "char \<Rightarrow> string \<Rightarrow> string" where
  "dropTrailing c s = (if endsWith s c then butlast s else s)"

text \<open>The decimal text of a bound, for the quantifier suffix.\<close>

definition digitChar :: "nat \<Rightarrow> char" where
  "digitChar d = ''0123456789'' ! d"

fun decimal :: "nat \<Rightarrow> string" where
  "decimal n = (if 10 \<le> n then decimal (n div 10) @ [digitChar (n mod 10)] else [digitChar n])"

declare decimal.simps [simp del]

definition string_of_int :: "int \<Rightarrow> string" where
  "string_of_int i = (if i < 0 then CHR ''-'' # decimal (nat (- i)) else decimal (nat i))"

text \<open>\<open>lexAfter a b\<close>: the string \<open>a\<close> sorts strictly after \<open>b\<close>, character code by character code.\<close>

fun lexAfter :: "string \<Rightarrow> string \<Rightarrow> bool" where
  "lexAfter [] _ = False"
| "lexAfter (x # xs) [] = True"
| "lexAfter (x # xs) (y # ys) =
     (if (of_char y :: nat) < of_char x then True
      else if (of_char x :: nat) < of_char y then False
      else lexAfter xs ys)"

fun intercalate :: "string \<Rightarrow> string list \<Rightarrow> string" where
  "intercalate sep [] = []"
| "intercalate sep [x] = x"
| "intercalate sep (x # y # ys) = x @ sep @ intercalate sep (y # ys)"

section \<open>The expression tree\<close>

text \<open>
  The adapter imports its types and constructors from \<^verbatim>\<open>RegexAst.bs\<close> and its renderer from
  \<^verbatim>\<open>StringifyAst.bs\<close>. Neither file is among the sources: only the adapter that calls them,
  its type declarations and its tests are. This section and the next three model them
  from the specification, under the names the adapter imports them by (with the suffix
  \<open>_node\<close> where a method of the class has the same name). Where the specification is
  silent, or the snapshots of the repository's tests disagree with it, the snapshots
  decide, and the definition says so.
\<close>

text \<open>Modelled from the spec: the tags of the \<open>BuiltIn\<close> variant of \<^verbatim>\<open>RegexAst.bs\<close> (section 3:
  whitespace, digit, word, tab, linebreak, any-char).\<close>

datatype builtin = Whitespace | Digit | Word | Tab | Linebreak | AnyChar

text \<open>Modelled from the spec: the direction of a \<open>Lookaround\<close> of \<^verbatim>\<open>RegexAst.bs\<close> (section 3:
  ahead or behind, only ahead used).\<close>

datatype direction = Ahead | Behind

text \<open>Modelled from the spec: the node type of \<^verbatim>\<open>RegexAst.bs\<close> (section 3: \<open>Empty\<close>; \<open>Literal\<close>
  with its fragment and whether it was escaped; \<open>Sequence\<close> and \<open>Alternation\<close> with their
  ordered children; \<open>Quantified\<close> with child, min, max (none for unbounded) and lazy;
  \<open>Group\<close> with child and optional name; \<open>Lookaround\<close> with child, direction and negate;
  \<open>CharClass\<close> with characters, ranges and negate; \<open>BuiltIn\<close>). The bounds of \<open>Quantified\<close>
  are integers, which is what the adapter hands over.\<close>

datatype node =
    Empty
  | Literal string bool
  | Sequence "node list"
  | Alternation "node list"
  | Quantified node int "int option" bool
  | Group node "string option"
  | Lookaround node direction bool
  | CharClass "char list" "(string \<times> string) list" bool
  | BuiltIn builtin

text \<open>Modelled from the spec: the root wrapper of \<^verbatim>\<open>RegexAst.bs\<close> (section 3: a node, a prefix
  that is empty or \<^verbatim>\<open>^\<close>, a suffix that is empty or \<^verbatim>\<open>$\<close>, and the flags).\<close>

record RootNode =
  node :: node
  prefix :: string
  suffix :: string
  flags :: string

text \<open>
  What can be thrown. \<open>AssertionError\<close>, with its message, is the one the adapter itself
  throws, in \<^verbatim>\<open>makeRanges\<close>; the other three are the structural errors of the absent
  files, as section 7 of the specification names them.
\<close>

datatype error =
    AssertionError string
  | InvalidRangeError
  | InvalidGroupNameError
  | UnsupportedQuantifierRangeError

section \<open>The node algebra\<close>

text \<open>Modelled from the spec: the constant \<^verbatim>\<open>whitespace\<close> of \<^verbatim>\<open>RegexAst.bs\<close> (section 3, the
  \<open>BuiltIn\<close> variant).\<close>

definition whitespace_node :: node where
  "whitespace_node = BuiltIn Whitespace"

text \<open>Modelled from the spec: the constant \<^verbatim>\<open>digit\<close> of \<^verbatim>\<open>RegexAst.bs\<close> (section 3, the
  \<open>BuiltIn\<close> variant).\<close>

definition digit_node :: node where
  "digit_node = BuiltIn Digit"

text \<open>Modelled from the spec: the constant \<^verbatim>\<open>word\<close> of \<^verbatim>\<open>RegexAst.bs\<close> (section 3, the
  \<open>BuiltIn\<close> variant).\<close>

definition word_node :: node where
  "word_node = BuiltIn Word"

text \<open>Modelled from the spec: the constant \<^verbatim>\<open>tab\<close> of \<^verbatim>\<open>RegexAst.bs\<close> (section 3, the
  \<open>BuiltIn\<close> variant).\<close>

definition tab_node :: node where
  "tab_node = BuiltIn Tab"

text \<open>Modelled from the spec: the constant \<^verbatim>\<open>linebreak\<close> of \<^verbatim>\<open>RegexAst.bs\<close> (section 3, the
  \<open>BuiltIn\<close> variant).\<close>

definition linebreak_node :: node where
  "linebreak_node = BuiltIn Linebreak"

text \<open>Modelled from the spec: the constant \<^verbatim>\<open>empty\<close> of \<^verbatim>\<open>RegexAst.bs\<close> (section 3: \<open>Empty\<close>
  matches the empty string).\<close>

definition empty_node :: node where
  "empty_node = Empty"

text \<open>Modelled from the spec: the nodes \<^verbatim>\<open>then_\<close> of \<^verbatim>\<open>RegexAst.bs\<close> appends (section 4.1:
  \<open>b\<close>'s nodes, flattened one level).\<close>

fun flatten1 :: "node \<Rightarrow> node list" where
  "flatten1 (Sequence ys) = ys"
| "flatten1 b = [b]"

text \<open>Modelled from the spec: \<^verbatim>\<open>then_\<close> of \<^verbatim>\<open>RegexAst.bs\<close> (section 4.1: if \<open>a\<close> is already a
  \<open>Sequence\<close>, append \<open>b\<close>'s nodes flattened one level; otherwise build \<open>Sequence [a, b]\<close>).
  The specification does not say what composing onto \<open>Empty\<close> gives. The repository's
  test does: \<^verbatim>\<open>Fx().charOfRanges(["0","9"],["a","f"]).repeatExactly(8)\<close> renders as
  \<^verbatim>\<open>[0-9a-f]{8}\<close>, with no group around the class, so composing onto the empty
  expression yields the right operand alone.\<close>

fun then_node :: "node \<Rightarrow> node \<Rightarrow> node" where
  "then_node Empty b = b"
| "then_node (Sequence xs) b = Sequence (xs @ flatten1 b)"
| "then_node a b = Sequence [a, b]"

text \<open>Modelled from the spec: \<^verbatim>\<open>seq\<close> of \<^verbatim>\<open>RegexAst.bs\<close> (section 3: a \<open>Sequence\<close> is the
  ordered list of its child nodes; the specification names no flattening for it).\<close>

definition seq :: "node list \<Rightarrow> node" where
  "seq xs = Sequence xs"

text \<open>Modelled from the spec: the branches \<^verbatim>\<open>alt\<close> of \<^verbatim>\<open>RegexAst.bs\<close> takes from a child
  (section 4.1: a nested \<open>Alternation\<close> is flattened one level, a \<open>Sequence\<close> is not).\<close>

fun branches :: "node \<Rightarrow> node list" where
  "branches (Alternation ys) = ys"
| "branches b = [b]"

text \<open>Modelled from the spec: \<^verbatim>\<open>alt\<close> of \<^verbatim>\<open>RegexAst.bs\<close> (section 4.1: builds \<open>Alternation\<close>,
  flattening nested \<open>Alternation\<close> children one level).\<close>

definition alt :: "node list \<Rightarrow> node" where
  "alt xs = Alternation (concat (map branches xs))"

text \<open>Modelled from the spec: \<^verbatim>\<open>or_\<close> of \<^verbatim>\<open>RegexAst.bs\<close> (section 4.1: \<open>or (a, b)\<close> builds the
  \<open>Alternation\<close> as \<open>alt\<close> does).\<close>

definition or_node :: "node \<Rightarrow> node \<Rightarrow> node" where
  "or_node a b = alt [a, b]"

text \<open>Modelled from the spec: \<^verbatim>\<open>oneOrMore\<close> of \<^verbatim>\<open>RegexAst.bs\<close> (section 4.1:
  \<open>Quantified (a, 1, unbounded)\<close>).\<close>

definition oneOrMore_node :: "node \<Rightarrow> bool \<Rightarrow> node" where
  "oneOrMore_node a lazy = Quantified a 1 None lazy"

text \<open>Modelled from the spec: \<^verbatim>\<open>zeroOrMore\<close> of \<^verbatim>\<open>RegexAst.bs\<close> (section 4.1:
  \<open>Quantified (a, 0, unbounded)\<close>).\<close>

definition zeroOrMore_node :: "node \<Rightarrow> bool \<Rightarrow> node" where
  "zeroOrMore_node a lazy = Quantified a 0 None lazy"

text \<open>Modelled from the spec: \<^verbatim>\<open>maybe\<close> of \<^verbatim>\<open>RegexAst.bs\<close> (section 4.1: equivalent to
  \<open>then (a, Quantified (b, min = 0, max = 1, lazy = false))\<close>).\<close>

definition maybe_node :: "node \<Rightarrow> node \<Rightarrow> node" where
  "maybe_node a b = then_node a (Quantified b 0 (Some 1) False)"

text \<open>Modelled from the spec: the character class built by \<^verbatim>\<open>anyOf\<close>, \<^verbatim>\<open>someOf\<close>,
  \<^verbatim>\<open>oneOf\<close>, \<^verbatim>\<open>anythingBut\<close> and \<^verbatim>\<open>somethingBut\<close> of \<^verbatim>\<open>RegexAst.bs\<close> (section 4.1: a
  \<open>CharClass\<close> from the characters, deduplicated and order-insensitive).\<close>

definition charClass :: "string \<Rightarrow> bool \<Rightarrow> node" where
  "charClass chars negate = CharClass (sort (remdups chars)) [] negate"

text \<open>Modelled from the spec: \<^verbatim>\<open>anything\<close> of \<^verbatim>\<open>RegexAst.bs\<close> (section 4.1: \<open>then\<close> of the
  any-character class, \<open>Quantified\<close> with min 0, max unbounded and the laziness given).\<close>

definition anything_node :: "node \<Rightarrow> bool \<Rightarrow> node" where
  "anything_node a lazy = then_node a (Quantified (BuiltIn AnyChar) 0 None lazy)"

text \<open>Modelled from the spec: \<^verbatim>\<open>something\<close> of \<^verbatim>\<open>RegexAst.bs\<close> (section 4.1: \<open>then\<close> of the
  any-character class, \<open>Quantified\<close> with min 1, max unbounded).\<close>

definition something_node :: "node \<Rightarrow> node" where
  "something_node a = then_node a (Quantified (BuiltIn AnyChar) 1 None False)"

text \<open>Modelled from the spec: \<^verbatim>\<open>anythingBut\<close> of \<^verbatim>\<open>RegexAst.bs\<close> (section 4.1: \<open>then\<close> of the
  negated \<open>CharClass\<close> of the characters, \<open>Quantified\<close> with min 0, max unbounded and the
  laziness given).\<close>

definition anythingBut_node :: "node \<Rightarrow> string \<Rightarrow> bool \<Rightarrow> node" where
  "anythingBut_node a chars lazy = then_node a (Quantified (charClass chars True) 0 None lazy)"

text \<open>Modelled from the spec: \<^verbatim>\<open>somethingBut\<close> of \<^verbatim>\<open>RegexAst.bs\<close> (section 4.1: \<open>then\<close> of
  the negated \<open>CharClass\<close> of the characters, \<open>Quantified\<close> with min 1, max unbounded).\<close>

definition somethingBut_node :: "node \<Rightarrow> string \<Rightarrow> node" where
  "somethingBut_node a chars = then_node a (Quantified (charClass chars True) 1 None False)"

text \<open>Modelled from the spec: \<^verbatim>\<open>anyOf\<close> of \<^verbatim>\<open>RegexAst.bs\<close> (section 4.1: the \<open>CharClass\<close> of
  the characters composed with \<open>zeroOrMore\<close>, via \<open>then\<close>).\<close>

definition anyOf_node :: "node \<Rightarrow> string \<Rightarrow> node" where
  "anyOf_node a chars = then_node a (zeroOrMore_node (charClass chars False) False)"

text \<open>Modelled from the spec: \<^verbatim>\<open>someOf\<close> of \<^verbatim>\<open>RegexAst.bs\<close> (section 4.1: the \<open>CharClass\<close> of
  the characters composed with \<open>oneOrMore\<close>, via \<open>then\<close>).\<close>

definition someOf_node :: "node \<Rightarrow> string \<Rightarrow> node" where
  "someOf_node a chars = then_node a (oneOrMore_node (charClass chars False) False)"

text \<open>Modelled from the spec: \<^verbatim>\<open>oneOf\<close> of \<^verbatim>\<open>RegexAst.bs\<close> (section 4.1: the \<open>CharClass\<close> of
  the characters, exactly once, via \<open>then\<close>).\<close>

definition oneOf_node :: "node \<Rightarrow> string \<Rightarrow> node" where
  "oneOf_node a chars = then_node a (charClass chars False)"

text \<open>Modelled from the spec: the bounds of a range handed to \<^verbatim>\<open>ranges\<close> of \<^verbatim>\<open>RegexAst.bs\<close>.
  The adapter hands over pairs of optional strings; a pair with a missing bound is what
  an odd number of boundary values leaves.\<close>

fun rangeBounds :: "string option \<times> string option \<Rightarrow> (string \<times> string) option" where
  "rangeBounds (Some lo, Some hi) = Some (lo, hi)"
| "rangeBounds _ = None"

text \<open>Modelled from the spec: the validation done by \<^verbatim>\<open>ranges\<close> of \<^verbatim>\<open>RegexAst.bs\<close> (section
  4.1: a pair is refused if \<open>lo\<close> is lexicographically after \<open>hi\<close>, or if the number of
  boundary values was odd, which the algebra re-validates).\<close>

fun validRange :: "string option \<times> string option \<Rightarrow> bool" where
  "validRange (Some lo, Some hi) = (\<not> lexAfter lo hi)"
| "validRange _ = False"

text \<open>Modelled from the spec: \<^verbatim>\<open>ranges\<close> of \<^verbatim>\<open>RegexAst.bs\<close> (section 4.1: builds the
  \<open>CharClass\<close> whose range set is the validated pairs; fails with \<open>InvalidRangeError\<close>
  otherwise). As for the sibling constructors, the class is composed onto \<open>a\<close> with
  \<open>then\<close>.\<close>

definition ranges :: "node \<Rightarrow> (string option \<times> string option) list \<Rightarrow> bool \<Rightarrow> error + node" where
  "ranges a pairs negate =
     (if list_all validRange pairs
      then Inr (then_node a (CharClass [] (List.map_filter rangeBounds pairs) negate))
      else Inl InvalidRangeError)"

text \<open>Modelled from the spec: \<^verbatim>\<open>followedBy\<close> of \<^verbatim>\<open>RegexAst.bs\<close> (section 4.1: wraps \<open>b\<close> in
  \<open>Lookaround (ahead, negate = false)\<close>, then \<open>then (a, lookaround)\<close>).\<close>

definition followedBy :: "node \<Rightarrow> node \<Rightarrow> node" where
  "followedBy a b = then_node a (Lookaround b Ahead False)"

text \<open>Modelled from the spec: \<^verbatim>\<open>notFollowedBy\<close> of \<^verbatim>\<open>RegexAst.bs\<close> (section 4.1: wraps \<open>b\<close> in
  \<open>Lookaround (ahead, negate = true)\<close>, then \<open>then (a, lookaround)\<close>).\<close>

definition notFollowedBy :: "node \<Rightarrow> node \<Rightarrow> node" where
  "notFollowedBy a b = then_node a (Lookaround b Ahead True)"

text \<open>Modelled from the spec: the coercion of a bound by \<^verbatim>\<open>repeat\<close> of \<^verbatim>\<open>RegexAst.bs\<close>
  (section 4.1: min and max are coerced to non-negative integers). The adapter hands
  over integers, so what is left to the constructor is the sign; a negative bound is
  taken to the nearest non-negative integer, which is 0.\<close>

definition nonNegative :: "int \<Rightarrow> int" where
  "nonNegative i = max 0 i"

text \<open>Modelled from the spec: \<^verbatim>\<open>repeat\<close> of \<^verbatim>\<open>RegexAst.bs\<close> (section 4.1: wraps in
  \<open>Quantified\<close>; min and max are coerced to non-negative integers; an omitted max means
  unbounded). The specification gives an omitted lower bound no meaning; it is taken as
  0.\<close>

definition repeat_node :: "node \<Rightarrow> int option \<Rightarrow> int option \<Rightarrow> node" where
  "repeat_node a mn mx =
     Quantified a (case mn of None \<Rightarrow> 0 | Some m \<Rightarrow> nonNegative m) (map_option nonNegative mx) False"

text \<open>Modelled from the spec: \<^verbatim>\<open>repeatExact\<close> of \<^verbatim>\<open>RegexAst.bs\<close> (section 4.1: sets
  min = max = n).\<close>

definition repeatExact :: "node \<Rightarrow> int option \<Rightarrow> node" where
  "repeatExact a n = repeat_node a n n"

text \<open>Modelled from the spec: the digits, for the group-name grammar of \<^verbatim>\<open>group\<close> of
  \<^verbatim>\<open>RegexAst.bs\<close> (section 4.1: non-numeric-leading).\<close>

definition isDigitChar :: "char \<Rightarrow> bool" where
  "isDigitChar c = (48 \<le> (of_char c :: nat) \<and> (of_char c :: nat) \<le> 57)"

text \<open>Modelled from the spec: the word characters, for the group-name grammar of \<^verbatim>\<open>group\<close>
  of \<^verbatim>\<open>RegexAst.bs\<close> (section 4.1: ASCII word characters).\<close>

definition isWordChar :: "char \<Rightarrow> bool" where
  "isWordChar c =
     (isDigitChar c \<or> (65 \<le> (of_char c :: nat) \<and> (of_char c :: nat) \<le> 90)
      \<or> (97 \<le> (of_char c :: nat) \<and> (of_char c :: nat) \<le> 122) \<or> c = CHR ''_'')"

text \<open>Modelled from the spec: the group-name grammar of \<^verbatim>\<open>group\<close> of \<^verbatim>\<open>RegexAst.bs\<close> (section
  4.1: ASCII word characters, non-numeric-leading).\<close>

definition validGroupName :: "string \<Rightarrow> bool" where
  "validGroupName n = (case n of [] \<Rightarrow> False | c # _ \<Rightarrow> \<not> isDigitChar c \<and> list_all isWordChar n)"

text \<open>Modelled from the spec: \<^verbatim>\<open>group\<close> of \<^verbatim>\<open>RegexAst.bs\<close> (section 4.1: wraps in \<open>Group\<close>; a
  name, if given, must match the group-name grammar, otherwise
  \<open>InvalidGroupNameError\<close>).\<close>

definition group_node :: "node \<Rightarrow> string option \<Rightarrow> error + node" where
  "group_node a name =
     (case name of
        None \<Rightarrow> Inr (Group a None)
      | Some n \<Rightarrow> if validGroupName n then Inr (Group a (Some n)) else Inl InvalidGroupNameError)"

section \<open>The root wrapper\<close>

text \<open>
  The argument object of the class constructor, which hands each of its six fields to
  \<^verbatim>\<open>createRoot\<close>; a field that is absent is \<open>None\<close>.
\<close>

record params =
  p_source :: "string option"
  p_node :: "node option"
  p_flags :: "string option"
  p_prefix :: "string option"
  p_suffix :: "string option"
  p_sanitize :: "bool option"

definition no_params :: params where
  "no_params = \<lparr>p_source = None, p_node = None, p_flags = None, p_prefix = None,
     p_suffix = None, p_sanitize = None\<rparr>"

text \<open>Modelled from the spec: the metacharacters escaped for \<^verbatim>\<open>createRoot\<close> of
  \<^verbatim>\<open>RegexAst.bs\<close> (section 4.3: \<^verbatim>\<open>. * + ? ^ $ { } ( ) | [ ] \ /\<close>).\<close>

definition metachars :: "char list" where
  "metachars = ''.*+?^${}()|[]'' @ [backslash] @ ''/''"

text \<open>Modelled from the spec: the escaping of a string literal done for \<^verbatim>\<open>createRoot\<close> of
  \<^verbatim>\<open>RegexAst.bs\<close> when \<^verbatim>\<open>sanitize\<close> is set (section 4.3: every regex metacharacter is
  escaped before the text reaches the \<open>Literal\<close> node).\<close>

definition escape :: "string \<Rightarrow> string" where
  "escape s = concat (map (\<lambda>c. if c \<in> set metachars then [backslash, c] else [c]) s)"

text \<open>Modelled from the spec: \<^verbatim>\<open>createRoot\<close> of \<^verbatim>\<open>RegexAst.bs\<close> (section 3: a root wrapper is a
  node with a prefix, a suffix and flags, the flags starting from the baseline
  \<^verbatim>\<open>"gi"\<close>; section 4.3: a string is escaped into a \<open>Literal\<close>, a regex source or a number
  is a raw \<open>Literal\<close>, an unsupported input, which the adapter hands over as the empty
  source, is the \<open>Empty\<close> node). A node that is given is kept.\<close>

definition createRoot :: "params \<Rightarrow> RootNode" where
  "createRoot p =
     \<lparr>node =
        (case p_node p of
           Some n \<Rightarrow> n
         | None \<Rightarrow>
             (case p_source p of
                None \<Rightarrow> Empty
              | Some s \<Rightarrow>
                  if s = [] then Empty
                  else if p_sanitize p = Some False then Literal s False
                  else Literal (escape s) True)),
      prefix = (case p_prefix p of None \<Rightarrow> [] | Some x \<Rightarrow> x),
      suffix = (case p_suffix p of None \<Rightarrow> [] | Some x \<Rightarrow> x),
      flags = (case p_flags p of None \<Rightarrow> ''gi'' | Some f \<Rightarrow> f)\<rparr>"

text \<open>Modelled from the spec: \<^verbatim>\<open>getNode\<close> of \<^verbatim>\<open>RegexAst.bs\<close> (section 3: the node of a root
  wrapper).\<close>

definition getNode :: "RootNode \<Rightarrow> node" where
  "getNode r = node r"

text \<open>Modelled from the spec: \<^verbatim>\<open>setNode\<close> of \<^verbatim>\<open>RegexAst.bs\<close> (sections 3 and 9: a root wrapper
  is never mutated; a setter returns a new value that differs in the one field).\<close>

definition setNode :: "RootNode \<Rightarrow> node \<Rightarrow> RootNode" where
  "setNode r n = r\<lparr>node := n\<rparr>"

text \<open>Modelled from the spec: \<^verbatim>\<open>setPrefix\<close> of \<^verbatim>\<open>RegexAst.bs\<close> (sections 3 and 9: a new root
  wrapper that differs in the prefix).\<close>

definition setPrefix :: "RootNode \<Rightarrow> string \<Rightarrow> RootNode" where
  "setPrefix r p = r\<lparr>prefix := p\<rparr>"

text \<open>Modelled from the spec: \<^verbatim>\<open>setSuffix\<close> of \<^verbatim>\<open>RegexAst.bs\<close> (sections 3 and 9: a new root
  wrapper that differs in the suffix).\<close>

definition setSuffix :: "RootNode \<Rightarrow> string \<Rightarrow> RootNode" where
  "setSuffix r x = r\<lparr>suffix := x\<rparr>"

text \<open>Modelled from the spec: \<^verbatim>\<open>addFlags\<close> of \<^verbatim>\<open>RegexAst.bs\<close> (section 4.1: set union over the
  flag set; no change for a flag already there; unknown flag characters are accepted as
  they are).\<close>

definition addFlags :: "RootNode \<Rightarrow> string \<Rightarrow> RootNode" where
  "addFlags r fs = r\<lparr>flags := flags r @ filter (\<lambda>c. c \<notin> set (flags r)) (remdups fs)\<rparr>"

text \<open>Modelled from the spec: \<^verbatim>\<open>removeFlags\<close> of \<^verbatim>\<open>RegexAst.bs\<close> (section 4.1: set difference
  over the flag set; no change for a flag that is not there).\<close>

definition removeFlags :: "RootNode \<Rightarrow> string \<Rightarrow> RootNode" where
  "removeFlags r fs = r\<lparr>flags := filter (\<lambda>c. c \<notin> set fs) (flags r)\<rparr>"

section \<open>The serializer\<close>

text \<open>Modelled from the spec: the quantifier suffix written by \<^verbatim>\<open>stringify\<close> of
  \<^verbatim>\<open>StringifyAst.bs\<close> (section 4.2: \<^verbatim>\<open>{min,max}\<close>, \<^verbatim>\<open>{n}\<close>, \<^verbatim>\<open>+\<close>, \<^verbatim>\<open>*\<close>, \<^verbatim>\<open>?\<close>, the
  shortest standard token where the bounds match a shorthand).\<close>

definition quantifier :: "int \<Rightarrow> int option \<Rightarrow> string" where
  "quantifier mn mx =
     (case mx of
        None \<Rightarrow>
          if mn = 1 then ''+'' else if mn = 0 then ''*''
          else ''{'' @ string_of_int mn @ '',}''
      | Some m \<Rightarrow>
          if mn = 0 \<and> m = 1 then ''?''
          else if mn = m then ''{'' @ string_of_int mn @ ''}''
          else ''{'' @ string_of_int mn @ '','' @ string_of_int m @ ''}'')"

text \<open>Modelled from the spec: which child of a \<open>Quantified\<close> node \<^verbatim>\<open>stringify\<close> of
  \<^verbatim>\<open>StringifyAst.bs\<close> renders bare (section 4.2: a single character, a \<open>Group\<close> or a
  \<open>CharClass\<close>). The specification counts a single built-in class as atomic too, but
  the repository's test snapshot renders an optional whitespace as \<^verbatim>\<open>(?:\s)?\<close> and a
  repeated one as \<^verbatim>\<open>(?:\s)+\<close>, so a built-in class is grouped.\<close>

fun atomic :: "node \<Rightarrow> bool" where
  "atomic (Literal s _) = (length s = 1)"
| "atomic (Group _ _) = True"
| "atomic (CharClass _ _ _) = True"
| "atomic _ = False"

text \<open>Modelled from the spec: which child of a \<open>Sequence\<close> \<^verbatim>\<open>stringify\<close> of
  \<^verbatim>\<open>StringifyAst.bs\<close> groups (section 4.2: a child that is itself an \<open>Alternation\<close>).\<close>

fun isAlternation :: "node \<Rightarrow> bool" where
  "isAlternation (Alternation _) = True"
| "isAlternation _ = False"

text \<open>Modelled from the spec: the native tokens of the built-in classes written by
  \<^verbatim>\<open>stringify\<close> of \<^verbatim>\<open>StringifyAst.bs\<close> (section 4.2: whitespace \<^verbatim>\<open>\s\<close>, digit \<^verbatim>\<open>\d\<close>, word
  \<^verbatim>\<open>\w+\<close>, tab \<^verbatim>\<open>\t\<close>, line break an alternation of the line-break sequences, any
  character \<^verbatim>\<open>.\<close>).\<close>

fun builtinToken :: "builtin \<Rightarrow> string" where
  "builtinToken Whitespace = [backslash, CHR ''s'']"
| "builtinToken Digit = [backslash, CHR ''d'']"
| "builtinToken Word = [backslash, CHR ''w'', CHR ''+'']"
| "builtinToken Tab = [backslash, CHR ''t'']"
| "builtinToken Linebreak =
     ''(?:'' @ [backslash, CHR ''r'', backslash, CHR ''n''] @ ''|'' @ [backslash, CHR ''r'']
       @ ''|'' @ [backslash, CHR ''n''] @ '')''"
| "builtinToken AnyChar = ''.''"

text \<open>Modelled from the spec: the escaping inside a \<open>CharClass\<close> done by \<^verbatim>\<open>stringify\<close> of
  \<^verbatim>\<open>StringifyAst.bs\<close> (section 4.2: \<^verbatim>\<open>]\<close>, \<^verbatim>\<open>^\<close>, \<^verbatim>\<open>-\<close> and the backslash are escaped).\<close>

definition classEscape :: "string \<Rightarrow> string" where
  "classEscape s =
     concat (map (\<lambda>c. if c \<in> set ('']^-'' @ [backslash]) then [backslash, c] else [c]) s)"

text \<open>Modelled from the spec: the text of a \<open>CharClass\<close> written by \<^verbatim>\<open>stringify\<close> of
  \<^verbatim>\<open>StringifyAst.bs\<close> (section 4.2: the characters and ranges inside \<^verbatim>\<open>[...]\<close> or
  \<^verbatim>\<open>[^...]\<close>).\<close>

definition renderClass :: "char list \<Rightarrow> (string \<times> string) list \<Rightarrow> bool \<Rightarrow> string" where
  "renderClass chars rs negate =
     ''['' @ (if negate then ''^'' else []) @ classEscape chars
       @ concat (map (\<lambda>(lo, hi). classEscape lo @ ''-'' @ classEscape hi) rs) @ '']''"

text \<open>Modelled from the spec: the recursive renderer of \<^verbatim>\<open>stringify\<close> of
  \<^verbatim>\<open>StringifyAst.bs\<close> (section 4.2: a \<open>Sequence\<close> concatenates its children and groups a
  child that is an \<open>Alternation\<close>; a \<open>Quantified\<close> node groups a child that is not atomic,
  appends the quantifier and then \<^verbatim>\<open>?\<close> when lazy; an \<open>Alternation\<close> joins its branches
  with \<^verbatim>\<open>|\<close> and groups none; a \<open>Group\<close> is \<^verbatim>\<open>(...)\<close> or \<^verbatim>\<open>(?<name>...)\<close>; a \<open>Lookaround\<close>
  is \<^verbatim>\<open>(?=...)\<close> or \<^verbatim>\<open>(?!...)\<close>, and looking behind, which nothing builds, is written
  the host's way).\<close>

fun render :: "node \<Rightarrow> string"
  and renderSeq :: "node list \<Rightarrow> string"
  and renderAlt :: "node list \<Rightarrow> string list" where
  "render Empty = []"
| "render (Literal s _) = s"
| "render (Sequence xs) = renderSeq xs"
| "render (Alternation xs) = intercalate ''|'' (renderAlt xs)"
| "render (Quantified c mn mx lazy) =
     (if atomic c then render c else ''(?:'' @ render c @ '')'')
       @ quantifier mn mx @ (if lazy then ''?'' else [])"
| "render (Group c name) =
     (case name of None \<Rightarrow> ''('' | Some n \<Rightarrow> ''(?<'' @ n @ ''>'') @ render c @ '')''"
| "render (Lookaround c d negate) =
     (case d of
        Ahead \<Rightarrow> (if negate then ''(?!'' else ''(?='')
      | Behind \<Rightarrow> (if negate then ''(?<!'' else ''(?<='')) @ render c @ '')''"
| "render (CharClass chars rs negate) = renderClass chars rs negate"
| "render (BuiltIn b) = builtinToken b"
| "renderSeq [] = []"
| "renderSeq (c # cs) =
     (if isAlternation c then ''(?:'' @ render c @ '')'' else render c) @ renderSeq cs"
| "renderAlt [] = []"
| "renderAlt (c # cs) = render c # renderAlt cs"

text \<open>Modelled from the spec: the range check of \<^verbatim>\<open>stringify\<close> of \<^verbatim>\<open>StringifyAst.bs\<close>
  (section 4.2: fails with \<open>UnsupportedQuantifierRangeError\<close> if min is greater than max
  when both are finite), anywhere in the tree.\<close>

fun rangesOk :: "node \<Rightarrow> bool"
  and rangesOkAll :: "node list \<Rightarrow> bool" where
  "rangesOk Empty = True"
| "rangesOk (Literal _ _) = True"
| "rangesOk (Sequence xs) = rangesOkAll xs"
| "rangesOk (Alternation xs) = rangesOkAll xs"
| "rangesOk (Quantified c mn mx _) =
     ((case mx of None \<Rightarrow> True | Some m \<Rightarrow> mn \<le> m) \<and> rangesOk c)"
| "rangesOk (Group c _) = rangesOk c"
| "rangesOk (Lookaround c _ _) = rangesOk c"
| "rangesOk (CharClass _ _ _) = True"
| "rangesOk (BuiltIn _) = True"
| "rangesOkAll [] = True"
| "rangesOkAll (c # cs) = (rangesOk c \<and> rangesOkAll cs)"

text \<open>Modelled from the spec: the flag string written by \<^verbatim>\<open>stringify\<close> of
  \<^verbatim>\<open>StringifyAst.bs\<close> (section 4.2: the flag set joined with no separator, in a stable
  canonical order). The order taken is that of the character codes, which is the order
  the host prints the flags of a regular expression in.\<close>

definition stringifyFlags :: "string \<Rightarrow> string" where
  "stringifyFlags fs = sort (remdups fs)"

text \<open>Modelled from the spec: \<^verbatim>\<open>stringify\<close> of \<^verbatim>\<open>StringifyAst.bs\<close> (section 4.2: the prefix and
  the suffix of the root wrapper are put before and after the rendered body). The result
  is the pair of the source and the flags.\<close>

definition stringify :: "RootNode \<Rightarrow> error + string \<times> string" where
  "stringify r =
     (if rangesOk (node r)
      then Inr (prefix r @ render (node r) @ suffix r, stringifyFlags (flags r))
      else Inl UnsupportedQuantifierRangeError)"

section \<open>The fluent adapter\<close>

subsection \<open>Instances and the process state\<close>

text \<open>
  An instance of \<^verbatim>\<open>SolidExpression\<close> is an object with one private field, its root
  wrapper. The store lists the root wrappers of the instances created so far: a reference
  is a position in it, and \<^verbatim>\<open>new\<close> appends. Beside the store, the process holds the latch
  of the one warning function the module creates (\<^verbatim>\<open>warnArgType\<close>), what has been written
  to the console, and \<^verbatim>\<open>process.env.NODE_ENV\<close>.
\<close>

record state =
  objs :: "RootNode list"
  warned :: bool
  console :: "string list"
  node_env :: string

definition rootNode :: "state \<Rightarrow> ref \<Rightarrow> RootNode" where
  "rootNode s r = objs s ! r"

text \<open>\<^verbatim>\<open>new SolidExpression(arg)\<close>: the constructor hands the fields of its argument to
  \<^verbatim>\<open>createRoot\<close> and stores the result in the new instance.\<close>

definition new_SolidExpression :: "state \<Rightarrow> params \<Rightarrow> ref \<times> state" where
  "new_SolidExpression s arg = (length (objs s), s\<lparr>objs := objs s @ [createRoot arg]\<rparr>)"

text \<open>\<^verbatim>\<open>SolidExpression.from(node)\<close>: \<^verbatim>\<open>new this(node)\<close>, whose argument is a root wrapper. The
  constructor reads \<^verbatim>\<open>source\<close> and \<^verbatim>\<open>sanitize\<close> from it too, which a root wrapper does
  not have.\<close>

definition from_root :: "state \<Rightarrow> RootNode \<Rightarrow> ref \<times> state" where
  "from_root s n =
     new_SolidExpression s
       \<lparr>p_source = None, p_node = Some (node n), p_flags = Some (flags n),
        p_prefix = Some (prefix n), p_suffix = Some (suffix n), p_sanitize = None\<rparr>"

text \<open>
  \<^verbatim>\<open>#preSanitize\<close>. The text of a number is the host's (\<^verbatim>\<open>value.toString()\<close> of a double),
  so it is a parameter, \<open>numToString\<close>, here and in every function that reaches it.
\<close>

definition preSanitize :: "(jsnum \<Rightarrow> string) \<Rightarrow> jsvalue \<Rightarrow> params" where
  "preSanitize numToString v =
     (case v of
        JRegExp re \<Rightarrow>
          (let source = (if re_source re = ''(?:)'' then [] else re_source re);
               prefix = (if startsWith source CHR ''^'' then ''^'' else []);
               suffix = (if endsWith source CHR ''$'' then ''$'' else [])
           in \<lparr>p_source = Some (dropTrailing CHR ''$'' (dropLeading CHR ''^'' source)),
               p_node = None, p_flags = Some (re_flags re), p_prefix = Some prefix,
               p_suffix = Some suffix, p_sanitize = Some False\<rparr>)
      | JNumber n \<Rightarrow> no_params\<lparr>p_source := Some (numToString n), p_sanitize := Some False\<rparr>
      | JString str \<Rightarrow> no_params\<lparr>p_source := Some str, p_sanitize := Some True\<rparr>
      | _ \<Rightarrow> no_params\<lparr>p_source := Some [], p_sanitize := Some False\<rparr>)"

text \<open>\<^verbatim>\<open>SolidExpression.of(x)\<close>.\<close>

definition of_value :: "(jsnum \<Rightarrow> string) \<Rightarrow> state \<Rightarrow> jsvalue \<Rightarrow> ref \<times> state" where
  "of_value numToString s x =
     (case x of
        JExpr r \<Rightarrow> (r, s)
      | _ \<Rightarrow> new_SolidExpression s (preSanitize numToString x))"

text \<open>
  The static members, created in this order when the class is evaluated, in a process
  that starts with an empty store and an unset latch.
\<close>

definition whitespace_ref :: ref where "whitespace_ref = 0"
definition empty_ref :: ref where "empty_ref = 1"
definition digit_ref :: ref where "digit_ref = 2"
definition tab_ref :: ref where "tab_ref = 3"
definition word_ref :: ref where "word_ref = 4"
definition linebreak_ref :: ref where "linebreak_ref = 5"
definition any_ref :: ref where "any_ref = 6"

definition static_nodes :: "node list" where
  "static_nodes =
     [whitespace_node, empty_node, digit_node, tab_node, word_node, linebreak_node,
      something_node empty_node]"

definition init_state :: "string \<Rightarrow> state" where
  "init_state env =
     fold (\<lambda>n s. snd (new_SolidExpression s (no_params\<lparr>p_node := Some n\<rparr>))) static_nodes
       \<lparr>objs = [], warned = False, console = [], node_env = env\<rparr>"

text \<open>\<^verbatim>\<open>SolidExpression.or(...xs)\<close> and \<^verbatim>\<open>SolidExpression.seq(...xs)\<close>: every argument goes through
  \<^verbatim>\<open>of\<close>, from left to right, and the nodes of the instances make the node of a new
  instance, whose prefix, suffix and flags are the defaults.\<close>

fun of_values :: "(jsnum \<Rightarrow> string) \<Rightarrow> state \<Rightarrow> jsvalue list \<Rightarrow> ref list \<times> state" where
  "of_values numToString s [] = ([], s)"
| "of_values numToString s (x # xs) =
     (case of_value numToString s x of
        (r, s1) \<Rightarrow> (case of_values numToString s1 xs of (rs, s2) \<Rightarrow> (r # rs, s2)))"

definition or_static :: "(jsnum \<Rightarrow> string) \<Rightarrow> state \<Rightarrow> jsvalue list \<Rightarrow> ref \<times> state" where
  "or_static numToString s xs =
     (case of_values numToString s xs of
        (verbals, s1) \<Rightarrow>
          new_SolidExpression s1
            (no_params\<lparr>p_node := Some (alt (map (\<lambda>x. node (rootNode s1 x)) verbals))\<rparr>))"

definition seq_static :: "(jsnum \<Rightarrow> string) \<Rightarrow> state \<Rightarrow> jsvalue list \<Rightarrow> ref \<times> state" where
  "seq_static numToString s xs =
     (case of_values numToString s xs of
        (verbals, s1) \<Rightarrow>
          new_SolidExpression s1
            (no_params\<lparr>p_node := Some (seq (map (\<lambda>x. node (rootNode s1 x)) verbals))\<rparr>))"

subsection \<open>The warning latch and the entry point\<close>

text \<open>\<^verbatim>\<open>writeWarning(text)\<close> returns a function with a latch of its own: the function writes
  \<open>text\<close> to the console the first time it is called, and sets the latch. The module calls
  \<^verbatim>\<open>writeWarning\<close> once, for \<^verbatim>\<open>warnArgType\<close>, whose latch is the field \<open>warned\<close> of the
  state.\<close>

definition writeWarning :: "string \<Rightarrow> state \<Rightarrow> state" where
  "writeWarning text s =
     (if \<not> warned s then s\<lparr>warned := True, console := console s @ [text]\<rparr> else s)"

definition argTypeWarning :: string where
  "argTypeWarning = ''Argument type is not supported. Returning empty Solid.''"

definition warnArgType :: "state \<Rightarrow> state" where
  "warnArgType = writeWarning argTypeWarning"

definition isNullish :: "jsvalue \<Rightarrow> bool" where
  "isNullish v = (case v of JUndefined \<Rightarrow> True | JNull \<Rightarrow> True | _ \<Rightarrow> False)"

definition supported :: "jsvalue \<Rightarrow> bool" where
  "supported v =
     (case v of
        JString _ \<Rightarrow> True | JNumber _ \<Rightarrow> True | JRegExp _ \<Rightarrow> True | JExpr _ \<Rightarrow> True
      | _ \<Rightarrow> False)"

text \<open>The default export \<^verbatim>\<open>Sx(value)\<close>.\<close>

definition Sx :: "(jsnum \<Rightarrow> string) \<Rightarrow> state \<Rightarrow> jsvalue \<Rightarrow> ref \<times> state" where
  "Sx numToString s v =
     (if \<not> isNullish v \<and> supported v then of_value numToString s v
      else if \<not> isNullish v \<and> node_env s \<noteq> ''production'' then (empty_ref, warnArgType s)
      else (empty_ref, s))"

subsection \<open>Arguments of the methods\<close>

text \<open>
  The characters argument of \<^verbatim>\<open>anyOf\<close> and its siblings is a string, a number or an array
  of either, joined by \<^verbatim>\<open>[value].flat().join("")\<close>.
\<close>

datatype charsArg =
    OneString string
  | OneNumber jsnum
  | Strings "string list"
  | Numbers "jsnum list"

definition joinChars :: "(jsnum \<Rightarrow> string) \<Rightarrow> charsArg \<Rightarrow> string" where
  "joinChars numToString v =
     (case v of
        OneString x \<Rightarrow> x
      | OneNumber n \<Rightarrow> numToString n
      | Strings xs \<Rightarrow> concat xs
      | Numbers ns \<Rightarrow> concat (map numToString ns))"

text \<open>
  The arguments of \<^verbatim>\<open>charOfRanges\<close> are arrays of strings, nested to any depth:
  \<^verbatim>\<open>makeRanges\<close> flattens them all (\<^verbatim>\<open>flat(Infinity)\<close>), checks that the count is even and
  pairs the values up. Past the end of an array, \<^verbatim>\<open>flatRanges[i + 1]\<close> is \<^verbatim>\<open>undefined\<close>.
\<close>

datatype rangeArg = Bound string | Bounds "rangeArg list"

fun flat :: "rangeArg \<Rightarrow> string list"
  and flatAll :: "rangeArg list \<Rightarrow> string list" where
  "flat (Bound x) = [x]"
| "flat (Bounds xs) = flatAll xs"
| "flatAll [] = []"
| "flatAll (x # xs) = flat x @ flatAll xs"

fun pairUp :: "string list \<Rightarrow> (string option \<times> string option) list" where
  "pairUp [] = []"
| "pairUp [x] = [(Some x, None)]"
| "pairUp (x # y # zs) = (Some x, Some y) # pairUp zs"

definition makeRanges :: "rangeArg list \<Rightarrow> error + (string option \<times> string option) list" where
  "makeRanges rs =
     (let flatRanges = flatAll rs
      in if length flatRanges mod 2 = 0 then Inr (pairUp flatRanges)
         else Inl (AssertionError ''Expected even number of elements''))"

subsection \<open>The methods\<close>

text \<open>
  Each method takes the state and the receiver \<open>this\<close> and returns the reference of the
  expression it answers with, and the state. A method that can throw returns the error
  instead. An optional parameter is an \<open>option\<close>, with the default the source gives it.
\<close>

definition orDefault :: "'a \<Rightarrow> 'a option \<Rightarrow> 'a" where
  "orDefault d x = (case x of None \<Rightarrow> d | Some v \<Rightarrow> v)"

text \<open>\<^verbatim>\<open>#setPrefix\<close> and \<^verbatim>\<open>#setSuffix\<close>: an instance created without a root wrapper
  (\<^verbatim>\<open>new SolidExpression(null, false)\<close>), whose field is then assigned, once, before the
  instance is returned.\<close>

definition setPrefix_this :: "state \<Rightarrow> ref \<Rightarrow> string \<Rightarrow> ref \<times> state" where
  "setPrefix_this s this p =
     (length (objs s), s\<lparr>objs := objs s @ [setPrefix (rootNode s this) p]\<rparr>)"

definition setSuffix_this :: "state \<Rightarrow> ref \<Rightarrow> string \<Rightarrow> ref \<times> state" where
  "setSuffix_this s this x =
     (length (objs s), s\<lparr>objs := objs s @ [setSuffix (rootNode s this) x]\<rparr>)"

definition assertStartOfLine :: "state \<Rightarrow> ref \<Rightarrow> bool option \<Rightarrow> ref \<times> state" where
  "assertStartOfLine s this enable =
     setPrefix_this s this (if orDefault True enable then ''^'' else [])"

definition assertEndOfLine :: "state \<Rightarrow> ref \<Rightarrow> bool option \<Rightarrow> ref \<times> state" where
  "assertEndOfLine s this enable =
     setSuffix_this s this (if orDefault True enable then ''$'' else [])"

definition then_sx :: "(jsnum \<Rightarrow> string) \<Rightarrow> state \<Rightarrow> ref \<Rightarrow> jsvalue \<Rightarrow> ref \<times> state" where
  "then_sx numToString s this v =
     (let (r1, s1) = of_value numToString s v
      in from_root s1
           (setNode (setSuffix (rootNode s this) [])
              (then_node (getNode (rootNode s this)) (node (rootNode s1 r1)))))"

definition maybe :: "(jsnum \<Rightarrow> string) \<Rightarrow> state \<Rightarrow> ref \<Rightarrow> jsvalue \<Rightarrow> ref \<times> state" where
  "maybe numToString s this v =
     (let (r1, s1) = of_value numToString s v
      in from_root s1
           (setNode (setSuffix (rootNode s this) [])
              (maybe_node (getNode (rootNode s this)) (node (rootNode s1 r1)))))"

definition or_sx :: "(jsnum \<Rightarrow> string) \<Rightarrow> state \<Rightarrow> ref \<Rightarrow> jsvalue \<Rightarrow> ref \<times> state" where
  "or_sx numToString s this v =
     (let (r1, s1) = of_value numToString s v
      in from_root s1
           (setNode (rootNode s this)
              (or_node (getNode (rootNode s this)) (node (rootNode s1 r1)))))"

definition anything :: "state \<Rightarrow> ref \<Rightarrow> bool option \<Rightarrow> ref \<times> state" where
  "anything s this lazy =
     from_root s
       (setNode (rootNode s this) (anything_node (getNode (rootNode s this)) (orDefault False lazy)))"

definition anythingBut ::
  "(jsnum \<Rightarrow> string) \<Rightarrow> state \<Rightarrow> ref \<Rightarrow> charsArg \<Rightarrow> bool option \<Rightarrow> ref \<times> state" where
  "anythingBut numToString s this v lazy =
     from_root s
       (setNode (rootNode s this)
          (anythingBut_node (getNode (rootNode s this)) (joinChars numToString v)
             (orDefault False lazy)))"

definition something :: "state \<Rightarrow> ref \<Rightarrow> ref \<times> state" where
  "something s this =
     from_root s (setNode (rootNode s this) (something_node (getNode (rootNode s this))))"

definition somethingBut :: "(jsnum \<Rightarrow> string) \<Rightarrow> state \<Rightarrow> ref \<Rightarrow> charsArg \<Rightarrow> ref \<times> state" where
  "somethingBut numToString s this v =
     from_root s
       (setNode (rootNode s this)
          (somethingBut_node (getNode (rootNode s this)) (joinChars numToString v)))"

definition anyOf :: "(jsnum \<Rightarrow> string) \<Rightarrow> state \<Rightarrow> ref \<Rightarrow> charsArg \<Rightarrow> ref \<times> state" where
  "anyOf numToString s this v =
     from_root s
       (setNode (rootNode s this) (anyOf_node (getNode (rootNode s this)) (joinChars numToString v)))"

definition someOf :: "(jsnum \<Rightarrow> string) \<Rightarrow> state \<Rightarrow> ref \<Rightarrow> charsArg \<Rightarrow> ref \<times> state" where
  "someOf numToString s this v =
     from_root s
       (setNode (rootNode s this) (someOf_node (getNode (rootNode s this)) (joinChars numToString v)))"

definition oneOf :: "(jsnum \<Rightarrow> string) \<Rightarrow> state \<Rightarrow> ref \<Rightarrow> charsArg \<Rightarrow> ref \<times> state" where
  "oneOf numToString s this v =
     from_root s
       (setNode (rootNode s this) (oneOf_node (getNode (rootNode s this)) (joinChars numToString v)))"

definition any_sx :: "(jsnum \<Rightarrow> string) \<Rightarrow> state \<Rightarrow> ref \<Rightarrow> charsArg \<Rightarrow> ref \<times> state" where
  "any_sx numToString s this v = anyOf numToString s this v"

definition assertNotFollowedBy ::
  "(jsnum \<Rightarrow> string) \<Rightarrow> state \<Rightarrow> ref \<Rightarrow> jsvalue \<Rightarrow> ref \<times> state" where
  "assertNotFollowedBy numToString s this v =
     (let (r1, s1) = of_value numToString s v
      in from_root s1
           (setNode (rootNode s this)
              (notFollowedBy (getNode (rootNode s this)) (node (rootNode s1 r1)))))"

definition assertFollowedBy ::
  "(jsnum \<Rightarrow> string) \<Rightarrow> state \<Rightarrow> ref \<Rightarrow> jsvalue \<Rightarrow> ref \<times> state" where
  "assertFollowedBy numToString s this v =
     (let (r1, s1) = of_value numToString s v
      in from_root s1
           (setNode (rootNode s this)
              (followedBy (getNode (rootNode s this)) (node (rootNode s1 r1)))))"

text \<open>\<^verbatim>\<open>charOfRanges\<close> and \<^verbatim>\<open>charNotOfRanges\<close> differ in the flag they hand to \<^verbatim>\<open>ranges\<close>.
  \<^verbatim>\<open>makeRanges\<close> is evaluated before \<^verbatim>\<open>ranges\<close> is called.\<close>

definition charRanges :: "state \<Rightarrow> ref \<Rightarrow> rangeArg list \<Rightarrow> bool \<Rightarrow> error + ref \<times> state" where
  "charRanges s this characterRanges negate =
     (case makeRanges characterRanges of
        Inl e \<Rightarrow> Inl e
      | Inr rangePairs \<Rightarrow>
          (case ranges (getNode (rootNode s this)) rangePairs negate of
             Inl e \<Rightarrow> Inl e
           | Inr n \<Rightarrow> Inr (from_root s (setNode (rootNode s this) n))))"

definition charOfRanges :: "state \<Rightarrow> ref \<Rightarrow> rangeArg list \<Rightarrow> error + ref \<times> state" where
  "charOfRanges s this characterRanges = charRanges s this characterRanges False"

definition charNotOfRanges :: "state \<Rightarrow> ref \<Rightarrow> rangeArg list \<Rightarrow> error + ref \<times> state" where
  "charNotOfRanges s this characterRanges = charRanges s this characterRanges True"

definition lineBreak :: "(jsnum \<Rightarrow> string) \<Rightarrow> state \<Rightarrow> ref \<Rightarrow> ref \<times> state" where
  "lineBreak numToString s this = then_sx numToString s this (JExpr linebreak_ref)"

definition br :: "(jsnum \<Rightarrow> string) \<Rightarrow> state \<Rightarrow> ref \<Rightarrow> ref \<times> state" where
  "br numToString s this = lineBreak numToString s this"

definition tab :: "(jsnum \<Rightarrow> string) \<Rightarrow> state \<Rightarrow> ref \<Rightarrow> ref \<times> state" where
  "tab numToString s this = then_sx numToString s this (JExpr tab_ref)"

definition word :: "(jsnum \<Rightarrow> string) \<Rightarrow> state \<Rightarrow> ref \<Rightarrow> ref \<times> state" where
  "word numToString s this = then_sx numToString s this (JExpr word_ref)"

definition digit :: "(jsnum \<Rightarrow> string) \<Rightarrow> state \<Rightarrow> ref \<Rightarrow> ref \<times> state" where
  "digit numToString s this = then_sx numToString s this (JExpr digit_ref)"

definition whitespace :: "(jsnum \<Rightarrow> string) \<Rightarrow> state \<Rightarrow> ref \<Rightarrow> ref \<times> state" where
  "whitespace numToString s this = then_sx numToString s this (JExpr whitespace_ref)"

definition addFlag :: "state \<Rightarrow> ref \<Rightarrow> string option \<Rightarrow> ref \<times> state" where
  "addFlag s this flag = from_root s (addFlags (rootNode s this) (orDefault [] flag))"

definition removeFlag :: "state \<Rightarrow> ref \<Rightarrow> string \<Rightarrow> ref \<times> state" where
  "removeFlag s this flag = from_root s (removeFlags (rootNode s this) flag)"

definition withAnyCase :: "state \<Rightarrow> ref \<Rightarrow> bool option \<Rightarrow> ref \<times> state" where
  "withAnyCase s this enable =
     (if orDefault True enable then addFlag s this (Some ''i'') else removeFlag s this ''i'')"

definition stopAtFirst :: "state \<Rightarrow> ref \<Rightarrow> bool option \<Rightarrow> ref \<times> state" where
  "stopAtFirst s this enable =
     (if orDefault True enable then addFlag s this (Some ''g'') else removeFlag s this ''g'')"

definition searchOneLine :: "state \<Rightarrow> ref \<Rightarrow> bool option \<Rightarrow> ref \<times> state" where
  "searchOneLine s this enable =
     (if orDefault True enable then removeFlag s this ''m'' else addFlag s this (Some ''m''))"

definition repeat :: "state \<Rightarrow> ref \<Rightarrow> jsnum option \<Rightarrow> jsnum option \<Rightarrow> ref \<times> state" where
  "repeat s this mn mx =
     from_root s
       (setNode (rootNode s this)
          (repeat_node (getNode (rootNode s this)) (intOrUndefined mn) (intOrUndefined mx)))"

definition repeatExactly :: "state \<Rightarrow> ref \<Rightarrow> jsnum option \<Rightarrow> ref \<times> state" where
  "repeatExactly s this n =
     from_root s
       (setNode (rootNode s this) (repeatExact (getNode (rootNode s this)) (intOrUndefined n)))"

text \<open>\<^verbatim>\<open>oneOrMore\<close> calls the constructor with the node alone. \<^verbatim>\<open>zeroOrMore(lazy)\<close> does too:
  it hands \<^verbatim>\<open>lazy\<close> to \<^verbatim>\<open>setNode\<close>, as a third argument, and not to the constructor.\<close>

definition oneOrMore :: "state \<Rightarrow> ref \<Rightarrow> ref \<times> state" where
  "oneOrMore s this =
     from_root s (setNode (rootNode s this) (oneOrMore_node (getNode (rootNode s this)) False))"

definition zeroOrMore :: "state \<Rightarrow> ref \<Rightarrow> bool option \<Rightarrow> ref \<times> state" where
  "zeroOrMore s this lazy =
     from_root s (setNode (rootNode s this) (zeroOrMore_node (getNode (rootNode s this)) False))"

definition capture :: "state \<Rightarrow> ref \<Rightarrow> string option \<Rightarrow> error + ref \<times> state" where
  "capture s this name =
     (case group_node (getNode (rootNode s this)) name of
        Inl e \<Rightarrow> Inl e
      | Inr n \<Rightarrow> Inr (from_root s (setNode (rootNode s this) n)))"

text \<open>\<^verbatim>\<open>compile\<close>: the source and the flags it hands to the host's \<^verbatim>\<open>RegExp\<close> constructor.\<close>

definition compile :: "state \<Rightarrow> ref \<Rightarrow> error + string \<times> string" where
  "compile s this = stringify (rootNode s this)"

subsection \<open>A call of any fluent method\<close>

text \<open>
  The methods of the class that answer with an expression, with their arguments;
  \<^verbatim>\<open>group\<close>, \<^verbatim>\<open>followedBy\<close> and \<^verbatim>\<open>notFollowedBy\<close> are the aliases the prototype is given.
\<close>

datatype operation =
    AssertStartOfLine "bool option"
  | AssertEndOfLine "bool option"
  | Then jsvalue
  | Maybe jsvalue
  | Or jsvalue
  | Anything "bool option"
  | AnythingBut charsArg "bool option"
  | Something
  | SomethingBut charsArg
  | AnyOf charsArg
  | SomeOf charsArg
  | OneOf charsArg
  | Any charsArg
  | AssertNotFollowedBy jsvalue
  | AssertFollowedBy jsvalue
  | NotFollowedBy jsvalue
  | FollowedBy jsvalue
  | CharOfRanges "rangeArg list"
  | CharNotOfRanges "rangeArg list"
  | LineBreak
  | Br
  | TabChar
  | WordChars
  | DigitChar
  | WhitespaceChar
  | AddFlag "string option"
  | RemoveFlag string
  | WithAnyCase "bool option"
  | StopAtFirst "bool option"
  | SearchOneLine "bool option"
  | Repeat "jsnum option" "jsnum option"
  | RepeatExactly "jsnum option"
  | OneOrMore
  | ZeroOrMore "bool option"
  | Capture "string option"
  | GroupAs "string option"

fun call :: "(jsnum \<Rightarrow> string) \<Rightarrow> state \<Rightarrow> ref \<Rightarrow> operation \<Rightarrow> error + ref \<times> state" where
  "call f s this (AssertStartOfLine enable) = Inr (assertStartOfLine s this enable)"
| "call f s this (AssertEndOfLine enable) = Inr (assertEndOfLine s this enable)"
| "call f s this (Then v) = Inr (then_sx f s this v)"
| "call f s this (Maybe v) = Inr (maybe f s this v)"
| "call f s this (Or v) = Inr (or_sx f s this v)"
| "call f s this (Anything lazy) = Inr (anything s this lazy)"
| "call f s this (AnythingBut v lazy) = Inr (anythingBut f s this v lazy)"
| "call f s this Something = Inr (something s this)"
| "call f s this (SomethingBut v) = Inr (somethingBut f s this v)"
| "call f s this (AnyOf v) = Inr (anyOf f s this v)"
| "call f s this (SomeOf v) = Inr (someOf f s this v)"
| "call f s this (OneOf v) = Inr (oneOf f s this v)"
| "call f s this (Any v) = Inr (any_sx f s this v)"
| "call f s this (AssertNotFollowedBy v) = Inr (assertNotFollowedBy f s this v)"
| "call f s this (AssertFollowedBy v) = Inr (assertFollowedBy f s this v)"
| "call f s this (NotFollowedBy v) = Inr (assertNotFollowedBy f s this v)"
| "call f s this (FollowedBy v) = Inr (assertFollowedBy f s this v)"
| "call f s this (CharOfRanges rs) = charOfRanges s this rs"
| "call f s this (CharNotOfRanges rs) = charNotOfRanges s this rs"
| "call f s this LineBreak = Inr (lineBreak f s this)"
| "call f s this Br = Inr (br f s this)"
| "call f s this TabChar = Inr (tab f s this)"
| "call f s this WordChars = Inr (word f s this)"
| "call f s this DigitChar = Inr (digit f s this)"
| "call f s this WhitespaceChar = Inr (whitespace f s this)"
| "call f s this (AddFlag flag) = Inr (addFlag s this flag)"
| "call f s this (RemoveFlag flag) = Inr (removeFlag s this flag)"
| "call f s this (WithAnyCase enable) = Inr (withAnyCase s this enable)"
| "call f s this (StopAtFirst enable) = Inr (stopAtFirst s this enable)"
| "call f s this (SearchOneLine enable) = Inr (searchOneLine s this enable)"
| "call f s this (Repeat mn mx) = Inr (repeat s this mn mx)"
| "call f s this (RepeatExactly n) = Inr (repeatExactly s this n)"
| "call f s this OneOrMore = Inr (oneOrMore s this)"
| "call f s this (ZeroOrMore lazy) = Inr (zeroOrMore s this lazy)"
| "call f s this (Capture name) = capture s this name"
| "call f s this (GroupAs name) = capture s this name"

subsection \<open>What a process can do\<close>

text \<open>
  What a process can do with the module: \<open>evolves f s t\<close> holds when the state \<open>t\<close> comes
  from the state \<open>s\<close> by any number of calls of the entry point, of \<^verbatim>\<open>of\<close>, \<^verbatim>\<open>or\<close> and
  \<^verbatim>\<open>seq\<close>, and of the fluent methods.
\<close>

inductive evolves :: "(jsnum \<Rightarrow> string) \<Rightarrow> state \<Rightarrow> state \<Rightarrow> bool" for f s where
  same: "evolves f s s"
| entry: "evolves f s t \<Longrightarrow> evolves f s (snd (Sx f t v))"
| convert: "evolves f s t \<Longrightarrow> evolves f s (snd (of_value f t v))"
| either: "evolves f s t \<Longrightarrow> evolves f s (snd (or_static f t xs))"
| sequence: "evolves f s t \<Longrightarrow> evolves f s (snd (seq_static f t xs))"
| fluent: "evolves f s t \<Longrightarrow> call f t this m = Inr (r', t') \<Longrightarrow> evolves f s t'"

section \<open>Scenarios\<close>

text \<open>
  An expression anchored at the end of the line: \<^verbatim>\<open>Sx.empty.assertEndOfLine(true)\<close> in a
  fresh process.
\<close>

definition anchored :: "ref \<times> state" where
  "anchored = assertEndOfLine (init_state ''test'') empty_ref (Some True)"

text \<open>
  The first test of the repository, \<^verbatim>\<open>should build a uuid regexp via SolidExpressions\<close>:
  the source and the flags that \<^verbatim>\<open>fx.compile()\<close> hands to the host, in a fresh process.
  The receiver of a call is evaluated before its argument.
\<close>

definition uuidTest :: "(jsnum \<Rightarrow> string) \<Rightarrow> string \<Rightarrow> error + string \<times> string" where
  "uuidTest f env =
     (let s0 = init_state env;
          (fx0, s1) = Sx f s0 JUndefined
      in case charOfRanges s1 fx0
                [Bounds [Bound ''0'', Bound ''9''], Bounds [Bound ''a'', Bound ''f'']] of
           Inl e \<Rightarrow> Inl e
         | Inr (hexBlock, s2) \<Rightarrow>
             (let (a1, s3) = repeatExactly s2 hexBlock (Some (JFin 8));
                  (a2, s4) = then_sx f s3 a1 (JString ''-'');
                  (b1, s5) = repeatExactly s4 hexBlock (Some (JFin 4));
                  (b2, s6) = then_sx f s5 b1 (JString ''-'');
                  (b3, s7) = repeatExactly s6 b2 (Some (JFin 3));
                  (a3, s8) = then_sx f s7 a2 (JExpr b3);
                  (c1, s9) = repeatExactly s8 hexBlock (Some (JFin 12));
                  (a4, s10) = then_sx f s9 a3 (JExpr c1);
                  (a5, s11) = withAnyCase s10 a4 None;
                  (fx, s12) = searchOneLine s11 a5 None
              in compile s12 fx))"

text \<open>
  The second test, \<^verbatim>\<open>should build regexp via SolidExpressions\<close>, up to \<^verbatim>\<open>fx.compile()\<close>.
\<close>

definition regexpTest :: "(jsnum \<Rightarrow> string) \<Rightarrow> string \<Rightarrow> error + string \<times> string" where
  "regexpTest f env =
     (let s0 = init_state env;
          (a0, s1) = Sx f s0 (JRegExp \<lparr>re_source = ''^test_expr$'', re_flags = []\<rparr>);
          (a1, s2) = maybe f s1 a0 (JExpr whitespace_ref);
          (h0, s3) = Sx f s2 (JString ''hello'');
          (h1, s4) = repeat s3 h0 (Some (JFin 1)) (Some (JFin 3))
      in case capture s4 h1 (Some ''hellos'') of
           Inl e \<Rightarrow> Inl e
         | Inr (h2, s5) \<Rightarrow>
             (let (a2, s6) = then_sx f s5 a1 (JExpr h2);
                  (a3, s7) = repeat s6 a2 (Some (JFin 1)) (Some (JFin 4));
                  (w1, s8) = oneOrMore s7 whitespace_ref;
                  (a4, s9) = then_sx f s8 a3 (JExpr w1);
                  (g0, s10) = Sx f s9 (JString ''world'');
                  (g1, s11) = or_sx f s10 g0 (JString ''World'')
              in case capture s11 g1 (Some ''worldGroup'') of
                   Inl e \<Rightarrow> Inl e
                 | Inr (g2, s12) \<Rightarrow>
                     (let (a5, s13) = maybe f s12 a4 (JExpr g2);
                          (a6, s14) = assertFollowedBy f s13 a5 (JString ''!'');
                          (a7, s15) =
                            then_sx f s14 a6 (JRegExp \<lparr>re_source = ''.'', re_flags = []\<rparr>)
                      in compile s15 a7)))"

text \<open>\<^verbatim>\<open>Sx("a").then("b")\<close> in a fresh process: an expression whose node is a sequence of two.\<close>

definition twoLiterals :: "ref \<times> state" where
  "twoLiterals =
     then_sx (\<lambda>n. []) (snd (Sx (\<lambda>n. []) (init_state ''test'') (JString ''a'')))
       (fst (Sx (\<lambda>n. []) (init_state ''test'') (JString ''a''))) (JString ''b'')"

section \<open>Properties\<close>

subsection \<open>Instances are created, never changed\<close>

lemma createRoot_of_root:
  "createRoot \<lparr>p_source = None, p_node = Some (node n), p_flags = Some (flags n),
      p_prefix = Some (prefix n), p_suffix = Some (suffix n), p_sanitize = None\<rparr> = (n :: RootNode)"
  by (simp add: createRoot_def)

lemma from_root_eq: "from_root s n = (length (objs s), s\<lparr>objs := objs s @ [n]\<rparr>)"
  by (simp add: from_root_def new_SolidExpression_def createRoot_of_root)

lemma of_value_eq:
  "of_value f s v =
     (case v of JExpr r \<Rightarrow> (r, s)
      | _ \<Rightarrow> (length (objs s), s\<lparr>objs := objs s @ [createRoot (preSanitize f v)]\<rparr>))"
  by (simp add: of_value_def new_SolidExpression_def split: jsvalue.splits)

lemmas operation_defs =
  assertStartOfLine_def assertEndOfLine_def setPrefix_this_def setSuffix_this_def
  then_sx_def maybe_def or_sx_def anything_def anythingBut_def something_def
  somethingBut_def anyOf_def someOf_def oneOf_def any_sx_def assertNotFollowedBy_def
  assertFollowedBy_def charRanges_def charOfRanges_def charNotOfRanges_def lineBreak_def
  br_def tab_def word_def digit_def whitespace_def addFlag_def removeFlag_def
  withAnyCase_def stopAtFirst_def searchOneLine_def repeat_def repeatExactly_def
  oneOrMore_def zeroOrMore_def capture_def

text \<open>A call that returns has appended at least one instance to the store, the last of
  them the one it answers with, and has changed nothing else.\<close>

lemma call_extends:
  assumes "call f s this m = Inr (r', s')"
  shows "\<exists>ys. s' = s\<lparr>objs := objs s @ ys\<rparr> \<and> r' = length (objs s) + length ys - 1 \<and> ys \<noteq> []"
  using assms
  by (cases m)
     (auto simp: operation_defs from_root_eq of_value_eq
           split: prod.splits sum.splits jsvalue.splits if_splits)

lemma objs_init_state:
  "objs (init_state env) =
     map (\<lambda>n. \<lparr>node = n, prefix = [], suffix = [], flags = ''gi''\<rparr>)
       [BuiltIn Whitespace, Empty, BuiltIn Digit, BuiltIn Tab, BuiltIn Word, BuiltIn Linebreak,
        Quantified (BuiltIn AnyChar) 1 None False]"
  by (simp add: init_state_def static_nodes_def new_SolidExpression_def createRoot_def
      no_params_def whitespace_node_def empty_node_def digit_node_def tab_node_def
      word_node_def linebreak_node_def something_node_def)

lemma init_state_fields:
  "warned (init_state env) = False" "console (init_state env) = []"
  "node_env (init_state env) = env"
  by (simp_all add: init_state_def static_nodes_def new_SolidExpression_def)

lemma anchored_eq:
  "fst anchored = 7"
  "objs (snd anchored) =
     objs (init_state ''test'') @ [\<lparr>node = Empty, prefix = [], suffix = ''$'', flags = ''gi''\<rparr>]"
  by (simp_all add: anchored_def assertEndOfLine_def setSuffix_this_def objs_init_state
      rootNode_def empty_ref_def setSuffix_def orDefault_def)

lemma Sx_unsupported:
  "\<not> supported v \<Longrightarrow>
   Sx f s v = (empty_ref, if \<not> isNullish v \<and> node_env s \<noteq> ''production'' then warnArgType s else s)"
  by (simp add: Sx_def)

lemma Sx_supported:
  "supported v \<Longrightarrow> Sx f s v = of_value f s v"
  by (cases v) (simp_all add: Sx_def supported_def isNullish_def)

lemma of_value_fields:
  "warned (snd (of_value f s v)) = warned s" "console (snd (of_value f s v)) = console s"
  "node_env (snd (of_value f s v)) = node_env s"
  "\<exists>ys. objs (snd (of_value f s v)) = objs s @ ys"
  by (cases v; simp add: of_value_eq)+

lemma of_values_fields:
  "warned (snd (of_values f s xs)) = warned s \<and> console (snd (of_values f s xs)) = console s
   \<and> node_env (snd (of_values f s xs)) = node_env s
   \<and> (\<exists>ys. objs (snd (of_values f s xs)) = objs s @ ys)"
proof (induction xs arbitrary: s)
  case Nil
  show ?case by simp
next
  case (Cons x xs)
  obtain r s1 where a: "of_value f s x = (r, s1)" by (cases "of_value f s x")
  obtain rs s2 where b: "of_values f s1 xs = (rs, s2)" by (cases "of_values f s1 xs")
  from of_value_fields [of f s x] a obtain ys where
    1: "warned s1 = warned s" "console s1 = console s" "node_env s1 = node_env s"
      "objs s1 = objs s @ ys"
    by auto
  from Cons.IH [of s1] b obtain zs where
    2: "warned s2 = warned s1" "console s2 = console s1" "node_env s2 = node_env s1"
      "objs s2 = objs s1 @ zs"
    by auto
  show ?case using 1 2 by (simp add: a b)
qed

lemma static_fields:
  "warned (snd (or_static f s xs)) = warned s" "console (snd (or_static f s xs)) = console s"
  "node_env (snd (or_static f s xs)) = node_env s"
  "\<exists>ys. objs (snd (or_static f s xs)) = objs s @ ys"
  "warned (snd (seq_static f s xs)) = warned s" "console (snd (seq_static f s xs)) = console s"
  "node_env (snd (seq_static f s xs)) = node_env s"
  "\<exists>ys. objs (snd (seq_static f s xs)) = objs s @ ys"
  using of_values_fields [of f s xs]
  by (auto simp: or_static_def seq_static_def new_SolidExpression_def split: prod.splits)

lemma Sx_fields:
  "node_env (snd (Sx f s v)) = node_env s"
  "\<exists>ys. objs (snd (Sx f s v)) = objs s @ ys"
  "warned s \<Longrightarrow> warned (snd (Sx f s v))"
  "console (snd (Sx f s v)) =
     console s @ (if warned (snd (Sx f s v)) \<and> \<not> warned s then [argTypeWarning] else [])"
  by (cases "supported v";
      simp add: Sx_supported Sx_unsupported of_value_fields warnArgType_def writeWarning_def)+

lemma call_fields:
  assumes "call f s this m = Inr (r', s')"
  shows "warned s' = warned s" "console s' = console s" "node_env s' = node_env s"
    "\<exists>ys. objs s' = objs s @ ys"
proof -
  from call_extends [OF assms] obtain ys where "s' = s\<lparr>objs := objs s @ ys\<rparr>" by blast
  then show "warned s' = warned s" "console s' = console s" "node_env s' = node_env s"
    "\<exists>ys. objs s' = objs s @ ys"
    by simp_all
qed

text \<open>Along any evolution the store only grows, the environment stays, a set latch stays
  set, and the console gains the warning exactly when the latch goes from unset to set.\<close>

lemma evolves_objs: "evolves f s t \<Longrightarrow> \<exists>ys. objs t = objs s @ ys"
proof (induction rule: evolves.induct)
  case same
  show ?case by simp
next
  case (entry t v)
  from Sx_fields(2) [of f t v] entry.IH show ?case by (metis append.assoc)
next
  case (convert t v)
  from of_value_fields(4) [of f t v] convert.IH show ?case by (metis append.assoc)
next
  case (either t xs)
  from static_fields(4) [of f t xs] either.IH show ?case by (metis append.assoc)
next
  case (sequence t xs)
  from static_fields(8) [of f t xs] sequence.IH show ?case by (metis append.assoc)
next
  case (fluent t this m r' t')
  from call_fields(4) [OF fluent.hyps(2)] fluent.IH show ?case by (metis append.assoc)
qed

lemma evolves_env: "evolves f s t \<Longrightarrow> node_env t = node_env s"
  by (induction rule: evolves.induct)
     (simp_all add: Sx_fields of_value_fields static_fields call_fields)

lemma evolves_warned: "evolves f s t \<Longrightarrow> warned s \<Longrightarrow> warned t"
  by (induction rule: evolves.induct)
     (simp_all add: Sx_fields of_value_fields static_fields call_fields)

lemma evolves_console:
  "evolves f s t \<Longrightarrow>
   console t = console s @ (if warned t \<and> \<not> warned s then [argTypeWarning] else [])"
proof (induction rule: evolves.induct)
  case same
  show ?case by simp
next
  case (entry t v)
  have "warned t \<Longrightarrow> warned (snd (Sx f t v))" by (rule Sx_fields(3))
  moreover have "warned s \<Longrightarrow> warned t" using entry.hyps by (rule evolves_warned)
  ultimately show ?case
    using entry.IH Sx_fields(4) [of f t v] by (cases "warned t"; cases "warned s") simp_all
next
  case (convert t v)
  then show ?case by (simp add: of_value_fields)
next
  case (either t xs)
  then show ?case by (simp add: static_fields)
next
  case (sequence t xs)
  then show ?case by (simp add: static_fields)
next
  case (fluent t this m r' t')
  then show ?case by (simp add: call_fields)
qed

lemma evolves_trans:
  assumes "evolves f t u" and "evolves f s t"
  shows "evolves f s u"
  using assms by (induction rule: evolves.induct) (auto intro: evolves.intros)

lemma new_root: "rootNode (snd (from_root s n)) (fst (from_root s n)) = n"
  by (simp add: from_root_eq rootNode_def)

subsection \<open>Running the methods on a store that is written out\<close>

lemma init_state_eq:
  "init_state env =
     \<lparr>objs = map (\<lambda>n. \<lparr>node = n, prefix = [], suffix = [], flags = ''gi''\<rparr>)
        [BuiltIn Whitespace, Empty, BuiltIn Digit, BuiltIn Tab, BuiltIn Word, BuiltIn Linebreak,
         Quantified (BuiltIn AnyChar) 1 None False],
      warned = False, console = [], node_env = env\<rparr>"
  by (simp add: init_state_def static_nodes_def new_SolidExpression_def createRoot_def
      no_params_def whitespace_node_def empty_node_def digit_node_def tab_node_def
      word_node_def linebreak_node_def something_node_def)

text \<open>The methods on a store that is written out: the answer is the next free reference.\<close>

lemma run_from_root:
  "from_root \<lparr>objs = xs, warned = w, console = c, node_env = e\<rparr> n =
     (length xs, \<lparr>objs = xs @ [n], warned = w, console = c, node_env = e\<rparr>)"
  by (simp add: from_root_eq)

lemma run_of_value:
  "of_value f \<lparr>objs = xs, warned = w, console = c, node_env = e\<rparr> (JExpr q) =
     (q, \<lparr>objs = xs, warned = w, console = c, node_env = e\<rparr>)"
  "of_value f \<lparr>objs = xs, warned = w, console = c, node_env = e\<rparr> (JString x) =
     (length xs, \<lparr>objs = xs @ [createRoot (preSanitize f (JString x))], warned = w, console = c,
        node_env = e\<rparr>)"
  "of_value f \<lparr>objs = xs, warned = w, console = c, node_env = e\<rparr> (JRegExp re) =
     (length xs, \<lparr>objs = xs @ [createRoot (preSanitize f (JRegExp re))], warned = w, console = c,
        node_env = e\<rparr>)"
  by (simp_all add: of_value_eq)

lemma run_Sx:
  "Sx f \<lparr>objs = xs, warned = w, console = c, node_env = e\<rparr> JUndefined =
     (empty_ref, \<lparr>objs = xs, warned = w, console = c, node_env = e\<rparr>)"
  "Sx f \<lparr>objs = xs, warned = w, console = c, node_env = e\<rparr> (JString x) =
     of_value f \<lparr>objs = xs, warned = w, console = c, node_env = e\<rparr> (JString x)"
  "Sx f \<lparr>objs = xs, warned = w, console = c, node_env = e\<rparr> (JRegExp re) =
     of_value f \<lparr>objs = xs, warned = w, console = c, node_env = e\<rparr> (JRegExp re)"
  by (simp_all add: Sx_def isNullish_def supported_def)

lemma run_rootNode:
  "rootNode \<lparr>objs = xs, warned = w, console = c, node_env = e\<rparr> r = xs ! r"
  by (simp add: rootNode_def)

lemma run_then_sx:
  "then_sx f \<lparr>objs = xs, warned = w, console = c, node_env = e\<rparr> this v =
     (case of_value f \<lparr>objs = xs, warned = w, console = c, node_env = e\<rparr> v of
        (r1, s1) \<Rightarrow>
          from_root s1 (setNode (setSuffix (xs ! this) [])
            (then_node (node (xs ! this)) (node (rootNode s1 r1)))))"
  by (simp add: then_sx_def rootNode_def getNode_def split: prod.splits)

lemma run_maybe:
  "maybe f \<lparr>objs = xs, warned = w, console = c, node_env = e\<rparr> this v =
     (case of_value f \<lparr>objs = xs, warned = w, console = c, node_env = e\<rparr> v of
        (r1, s1) \<Rightarrow>
          from_root s1 (setNode (setSuffix (xs ! this) [])
            (maybe_node (node (xs ! this)) (node (rootNode s1 r1)))))"
  by (simp add: maybe_def rootNode_def getNode_def split: prod.splits)

lemma run_or_sx:
  "or_sx f \<lparr>objs = xs, warned = w, console = c, node_env = e\<rparr> this v =
     (case of_value f \<lparr>objs = xs, warned = w, console = c, node_env = e\<rparr> v of
        (r1, s1) \<Rightarrow>
          from_root s1 (setNode (xs ! this) (or_node (node (xs ! this)) (node (rootNode s1 r1)))))"
  by (simp add: or_sx_def rootNode_def getNode_def split: prod.splits)

lemma run_assertFollowedBy:
  "assertFollowedBy f \<lparr>objs = xs, warned = w, console = c, node_env = e\<rparr> this v =
     (case of_value f \<lparr>objs = xs, warned = w, console = c, node_env = e\<rparr> v of
        (r1, s1) \<Rightarrow>
          from_root s1 (setNode (xs ! this) (followedBy (node (xs ! this)) (node (rootNode s1 r1)))))"
  by (simp add: assertFollowedBy_def rootNode_def getNode_def split: prod.splits)

lemma run_repeat:
  "repeat \<lparr>objs = xs, warned = w, console = c, node_env = e\<rparr> this (Some a) (Some b) =
     from_root \<lparr>objs = xs, warned = w, console = c, node_env = e\<rparr>
       (setNode (xs ! this)
          (Quantified (node (xs ! this)) (nonNegative (toInt32 a)) (Some (nonNegative (toInt32 b))) False))"
  "repeatExactly \<lparr>objs = xs, warned = w, console = c, node_env = e\<rparr> this (Some a) =
     from_root \<lparr>objs = xs, warned = w, console = c, node_env = e\<rparr>
       (setNode (xs ! this)
          (Quantified (node (xs ! this)) (nonNegative (toInt32 a)) (Some (nonNegative (toInt32 a))) False))"
  "oneOrMore \<lparr>objs = xs, warned = w, console = c, node_env = e\<rparr> this =
     from_root \<lparr>objs = xs, warned = w, console = c, node_env = e\<rparr>
       (setNode (xs ! this) (Quantified (node (xs ! this)) 1 None False))"
  by (simp_all add: repeat_def repeatExactly_def oneOrMore_def rootNode_def getNode_def
      repeat_node_def repeatExact_def intOrUndefined_def oneOrMore_node_def)

lemma run_flags:
  "withAnyCase \<lparr>objs = xs, warned = w, console = c, node_env = e\<rparr> this None =
     from_root \<lparr>objs = xs, warned = w, console = c, node_env = e\<rparr> (addFlags (xs ! this) ''i'')"
  "searchOneLine \<lparr>objs = xs, warned = w, console = c, node_env = e\<rparr> this None =
     from_root \<lparr>objs = xs, warned = w, console = c, node_env = e\<rparr> (removeFlags (xs ! this) ''m'')"
  by (simp_all add: withAnyCase_def searchOneLine_def addFlag_def removeFlag_def orDefault_def
      rootNode_def)

lemma run_capture:
  "capture \<lparr>objs = xs, warned = w, console = c, node_env = e\<rparr> this name =
     (case group_node (node (xs ! this)) name of
        Inl err \<Rightarrow> Inl err
      | Inr n \<Rightarrow> Inr (from_root \<lparr>objs = xs, warned = w, console = c, node_env = e\<rparr>
                      (setNode (xs ! this) n)))"
  by (simp add: capture_def rootNode_def getNode_def split: sum.splits)

lemma run_charOfRanges:
  "charOfRanges \<lparr>objs = xs, warned = w, console = c, node_env = e\<rparr> this rs =
     (case makeRanges rs of
        Inl err \<Rightarrow> Inl err
      | Inr ps \<Rightarrow>
          (case ranges (node (xs ! this)) ps False of
             Inl err \<Rightarrow> Inl err
           | Inr n \<Rightarrow> Inr (from_root \<lparr>objs = xs, warned = w, console = c, node_env = e\<rparr>
                           (setNode (xs ! this) n))))"
  by (simp add: charOfRanges_def charRanges_def rootNode_def getNode_def split: sum.splits)

lemma run_compile:
  "compile \<lparr>objs = xs, warned = w, console = c, node_env = e\<rparr> this = stringify (xs ! this)"
  by (simp add: compile_def rootNode_def)

lemmas run =
  init_state_eq run_from_root run_of_value run_Sx run_rootNode run_then_sx run_maybe run_or_sx
  run_assertFollowedBy run_repeat run_flags run_capture run_charOfRanges

lemmas root_defs =
  setNode_def setSuffix_def setPrefix_def addFlags_def removeFlags_def createRoot_def
  preSanitize_def no_params_def escape_def metachars_def backslash_def makeRanges_def
  ranges_def List.map_filter_def maybe_node_def or_node_def alt_def followedBy_def
  group_node_def validGroupName_def isWordChar_def isDigitChar_def empty_ref_def
  whitespace_ref_def startsWith_def endsWith_def dropLeading_def dropTrailing_def
  nonNegative_def

lemmas render_defs =
  stringify_def stringifyFlags_def renderClass_def classEscape_def backslash_def

lemma quantifier_exact: "quantifier 8 (Some 8) = ''{8}''" "quantifier 4 (Some 4) = ''{4}''"
  "quantifier 3 (Some 3) = ''{3}''" "quantifier 12 (Some 12) = ''{12}''"
  by code_simp+

lemma toInt32_small: "toInt32 (JFin 8) = 8" "toInt32 (JFin 4) = 4" "toInt32 (JFin 3) = 3" "toInt32 (JFin 12) = 12"
  by (simp_all add: js_trunc_def)

lemma twoLiterals_eq:
  "fst twoLiterals = 9"
  "rootNode (snd twoLiterals) 9 =
     \<lparr>node = Sequence [Literal ''a'' True, Literal ''b'' True], prefix = [], suffix = [],
      flags = ''gi''\<rparr>"
  by (simp_all add: twoLiterals_def run root_defs)


subsection \<open>Grouping under a quantifier\<close>

lemma q24: "quantifier 2 (Some 4) = ''{2,4}''"
  by code_simp

lemma t24: "toInt32 (JFin 2) = 2" "toInt32 (JFin 4) = 4"
  by (simp_all add: js_trunc_def)

text \<open>
  Claim C1. For all nodes \<open>a\<close> and \<open>b\<close>, the node \<open>Quantified (Sequence [a, b], 2, 4)\<close>
  renders as the whole rendered sequence inside a non-capturing group, followed by the
  quantifier \<^verbatim>\<open>{2,4}\<close> (and by \<^verbatim>\<open>?\<close> when lazy): the repetition applies to the unit of \<open>a\<close>
  and \<open>b\<close>, never to \<open>b\<close> alone. So, when the ranges inside \<open>a\<close> and \<open>b\<close> are in order,
  \<^verbatim>\<open>repeat(2, 4)\<close> on an expression whose node is that sequence compiles to the source
  \<^verbatim>\<open>(?:...){2,4}\<close> between the receiver's prefix and suffix.
\<close>

theorem quantified_sequence_is_grouped:
  "render (Quantified (Sequence [a, b]) 2 (Some 4) False) = ''(?:'' @ render (Sequence [a, b]) @ ''){2,4}''
   \<and> render (Quantified (Sequence [a, b]) 2 (Some 4) True) = ''(?:'' @ render (Sequence [a, b]) @ ''){2,4}?''
   \<and> (node (rootNode s this) = Sequence [a, b] \<and> rangesOk a \<and> rangesOk b \<longrightarrow>
        compile (snd (repeat s this (Some (JFin 2)) (Some (JFin 4))))
                (fst (repeat s this (Some (JFin 2)) (Some (JFin 4))))
          = Inr (prefix (rootNode s this) @ ''(?:'' @ render (Sequence [a, b]) @ ''){2,4}''
                   @ suffix (rootNode s this),
                 stringifyFlags (flags (rootNode s this))))"
proof -
  have r: "rootNode (snd (repeat s this (Some (JFin 2)) (Some (JFin 4))))
                (fst (repeat s this (Some (JFin 2)) (Some (JFin 4))))
         = setNode (rootNode s this) (Quantified (node (rootNode s this)) 2 (Some 4) False)"
    unfolding repeat_def new_root
    by (simp add: getNode_def repeat_node_def nonNegative_def intOrUndefined_def t24
        del: toInt32.simps)
  show ?thesis
    unfolding compile_def r by (simp add: q24 stringify_def setNode_def)
qed

text \<open>The theorem at \<^verbatim>\<open>Sx("a").then("b").repeat(2, 4)\<close>, which compiles to
  \<^verbatim>\<open>/(?:ab){2,4}/gi\<close>.\<close>

theorem quantified_sequence_is_grouped_witness:
  "node (rootNode (snd twoLiterals) (fst twoLiterals)) = Sequence [Literal ''a'' True, Literal ''b'' True]
   \<and> rangesOk (Literal ''a'' True) \<and> rangesOk (Literal ''b'' True)
   \<and> render (Quantified (Sequence [Literal ''a'' True, Literal ''b'' True]) 2 (Some 4) False)
       = ''(?:ab){2,4}''
   \<and> compile (snd (repeat (snd twoLiterals) (fst twoLiterals) (Some (JFin 2)) (Some (JFin 4))))
              (fst (repeat (snd twoLiterals) (fst twoLiterals) (Some (JFin 2)) (Some (JFin 4))))
       = Inr (''(?:ab){2,4}'', ''gi'')"
proof -
  have n: "node (rootNode (snd twoLiterals) (fst twoLiterals))
      = Sequence [Literal ''a'' True, Literal ''b'' True]"
    by (simp add: twoLiterals_eq)
  have k: "rangesOk (Literal ''a'' True) \<and> rangesOk (Literal ''b'' True)" by simp
  note th = quantified_sequence_is_grouped
    [of "Literal ''a'' True" "Literal ''b'' True" "snd twoLiterals" "fst twoLiterals"]
  from th have 1: "render (Quantified (Sequence [Literal ''a'' True, Literal ''b'' True]) 2 (Some 4) False)
       = ''(?:ab){2,4}''"
    by simp
  from th n k have
    "compile (snd (repeat (snd twoLiterals) (fst twoLiterals) (Some (JFin 2)) (Some (JFin 4))))
              (fst (repeat (snd twoLiterals) (fst twoLiterals) (Some (JFin 2)) (Some (JFin 4))))
       = Inr (prefix (rootNode (snd twoLiterals) (fst twoLiterals)) @ ''(?:''
                @ render (Sequence [Literal ''a'' True, Literal ''b'' True]) @ ''){2,4}''
                @ suffix (rootNode (snd twoLiterals) (fst twoLiterals)),
              stringifyFlags (flags (rootNode (snd twoLiterals) (fst twoLiterals))))"
    by blast
  then have 2: "compile (snd (repeat (snd twoLiterals) (fst twoLiterals) (Some (JFin 2)) (Some (JFin 4))))
              (fst (repeat (snd twoLiterals) (fst twoLiterals) (Some (JFin 2)) (Some (JFin 4))))
       = Inr (''(?:ab){2,4}'', ''gi'')"
    by (simp add: twoLiterals_eq stringifyFlags_def)
  show ?thesis using n k 1 2 by blast
qed


subsection \<open>The tests of the repository\<close>

lemma uuid_root:
  "uuidTest f env =
     stringify \<lparr>node = Sequence
        [Quantified (CharClass [] [(''0'', ''9''), (''a'', ''f'')] False) 8 (Some 8) False,
         Literal ''-'' True,
         Quantified (Sequence
           [Quantified (CharClass [] [(''0'', ''9''), (''a'', ''f'')] False) 4 (Some 4) False,
            Literal ''-'' True]) 3 (Some 3) False,
         Quantified (CharClass [] [(''0'', ''9''), (''a'', ''f'')] False) 12 (Some 12) False],
       prefix = [], suffix = [], flags = ''gi''\<rparr>"
  by (simp add: uuidTest_def run run_compile root_defs toInt32_small del: toInt32.simps)

text \<open>
  Claim C2. The composition of the repository's first test (the class of the ranges
  \<^verbatim>\<open>0-9\<close> and \<^verbatim>\<open>a-f\<close> repeated exactly 8 times, then \<^verbatim>\<open>-\<close>, then the class repeated
  exactly 4 times and followed by \<^verbatim>\<open>-\<close>, all repeated exactly 3 times, then the class
  repeated exactly 12 times, with \<^verbatim>\<open>withAnyCase()\<close> and \<^verbatim>\<open>searchOneLine()\<close>) compiles to the
  source \<^verbatim>\<open>[0-9a-f]{8}-(?:[0-9a-f]{4}-){3}[0-9a-f]{12}\<close> and the flags \<^verbatim>\<open>gi\<close>, in every
  environment and whatever the host's text of numbers.
\<close>

theorem uuid_test_compiles_to_snapshot:
  "uuidTest f env = Inr (''[0-9a-f]{8}-(?:[0-9a-f]{4}-){3}[0-9a-f]{12}'', ''gi'')"
  unfolding uuid_root by (simp add: render_defs quantifier_exact)

text \<open>The theorem in a test process.\<close>

theorem uuid_test_compiles_to_snapshot_witness:
  "uuidTest (\<lambda>n. []) ''test'' = Inr (''[0-9a-f]{8}-(?:[0-9a-f]{4}-){3}[0-9a-f]{12}'', ''gi'')"
  by (rule uuid_test_compiles_to_snapshot)

text \<open>The second test of the repository compiles to the source of its snapshot, with the
  flags of the regular expression it starts from, which has none.\<close>

lemma regexp_test_snapshot:
  "regexpTest f env =
     Inr (''^(?:test_expr(?:'' @ [backslash] @ ''s)?(?<hellos>(?:hello){1,3})){1,4}(?:''
            @ [backslash] @ ''s)+(?<worldGroup>world|World)?(?=!).'', [])"
proof -
  have t: "toInt32 (JFin 1) = 1" "toInt32 (JFin 3) = 3" "toInt32 (JFin 4) = 4"
    by (simp_all add: js_trunc_def)
  have q: "quantifier 1 (Some 3) = ''{1,3}''" "quantifier 1 (Some 4) = ''{1,4}''"
    "quantifier 0 (Some 1) = ''?''" "quantifier 1 None = ''+''"
    by code_simp+
  have "regexpTest f env =
     stringify \<lparr>node = Sequence
        [Quantified (Sequence
           [Literal ''test_expr'' False,
            Quantified (BuiltIn Whitespace) 0 (Some 1) False,
            Group (Quantified (Literal ''hello'' True) 1 (Some 3) False) (Some ''hellos'')])
           1 (Some 4) False,
         Quantified (BuiltIn Whitespace) 1 None False,
         Quantified (Group (Alternation [Literal ''world'' True, Literal ''World'' True])
           (Some ''worldGroup'')) 0 (Some 1) False,
         Lookaround (Literal ''!'' True) Ahead False,
         Literal ''.'' False],
       prefix = ''^'', suffix = [], flags = []\<rparr>"
    by (simp add: regexpTest_def run run_compile root_defs t del: toInt32.simps)
  then show ?thesis by (simp add: render_defs q)
qed


subsection \<open>The end anchor\<close>

text \<open>
  Claim C3, as amended. Among the fluent methods, \<^verbatim>\<open>then\<close> and \<^verbatim>\<open>maybe\<close> (and \<^verbatim>\<open>lineBreak\<close>,
  \<^verbatim>\<open>br\<close>, \<^verbatim>\<open>tab\<close>, \<^verbatim>\<open>word\<close>, \<^verbatim>\<open>digit\<close> and \<^verbatim>\<open>whitespace\<close>, which call \<^verbatim>\<open>then\<close>) answer with a
  root wrapper whose suffix is empty; \<^verbatim>\<open>assertEndOfLine\<close> sets the suffix to \<^verbatim>\<open>$\<close> or to the
  empty string, as asked; every other method, \<^verbatim>\<open>repeat\<close> and \<^verbatim>\<open>repeatExactly\<close> among them,
  answers with the suffix of its receiver. So a method answers with the suffix \<^verbatim>\<open>$\<close> only
  when the receiver had it already or the method is \<^verbatim>\<open>assertEndOfLine\<close>, enabled.
\<close>

theorem then_clears_suffix_repeat_keeps_it:
  assumes "call f s this m = Inr (r', s')"
  shows "suffix (rootNode s' r') =
           (case m of
              Then _ \<Rightarrow> [] | Maybe _ \<Rightarrow> []
            | LineBreak \<Rightarrow> [] | Br \<Rightarrow> [] | TabChar \<Rightarrow> [] | WordChars \<Rightarrow> []
            | DigitChar \<Rightarrow> [] | WhitespaceChar \<Rightarrow> []
            | AssertEndOfLine enable \<Rightarrow> (if orDefault True enable then ''$'' else [])
            | _ \<Rightarrow> suffix (rootNode s this))
       \<and> (suffix (rootNode s' r') = ''$'' \<longrightarrow>
            suffix (rootNode s this) = ''$'' \<or> m = AssertEndOfLine None
            \<or> m = AssertEndOfLine (Some True))"
  using assms
  by (cases m)
     (auto simp: operation_defs from_root_eq of_value_eq rootNode_def nth_append
                 setNode_def setSuffix_def setPrefix_def addFlags_def removeFlags_def orDefault_def
           split: prod.splits sum.splits jsvalue.splits if_splits option.splits)

text \<open>The theorem at \<^verbatim>\<open>Sx.empty.assertEndOfLine(true).then("a")\<close>: the receiver's suffix is
  \<^verbatim>\<open>$\<close>, the answer's is empty.\<close>

theorem then_clears_suffix_witness:
  "\<exists>r' s'. call (\<lambda>n. []) (snd anchored) (fst anchored) (Then (JString ''a'')) = Inr (r', s')
      \<and> suffix (rootNode (snd anchored) (fst anchored)) = ''$''
      \<and> suffix (rootNode s' r') = []"
proof -
  obtain r' s' where
    c: "call (\<lambda>n. []) (snd anchored) (fst anchored) (Then (JString ''a'')) = Inr (r', s')"
    by (cases "then_sx (\<lambda>n. []) (snd anchored) (fst anchored) (JString ''a'')") simp
  have "suffix (rootNode s' r') = []"
    using then_clears_suffix_repeat_keeps_it [OF c] by simp
  with c show ?thesis by (simp add: anchored_eq rootNode_def objs_init_state)
qed

text \<open>The claim as it was stated fails at \<^verbatim>\<open>Sx.empty.assertEndOfLine(true).repeat(2, 4)\<close>
  and at \<^verbatim>\<open>Sx.empty.assertEndOfLine(true).repeatExactly(3)\<close>: the suffix of the answer is
  still \<^verbatim>\<open>$\<close>.\<close>

theorem repeat_keeps_dollar_suffix:
  "suffix (rootNode (snd anchored) (fst anchored)) = ''$''
   \<and> suffix (rootNode (snd (repeat (snd anchored) (fst anchored) (Some (JFin 2)) (Some (JFin 4))))
        (fst (repeat (snd anchored) (fst anchored) (Some (JFin 2)) (Some (JFin 4))))) = ''$''
   \<and> suffix (rootNode (snd (repeatExactly (snd anchored) (fst anchored) (Some (JFin 3))))
        (fst (repeatExactly (snd anchored) (fst anchored) (Some (JFin 3))))) = ''$''"
  by (simp add: repeat_def repeatExactly_def from_root_eq anchored_eq rootNode_def setNode_def
      nth_append objs_init_state)

subsection \<open>The receiver of a call\<close>

text \<open>
  Claim C4. A call of a fluent method that returns answers with a new instance and leaves
  the receiver as it was: the receiver's root wrapper (node, prefix, suffix and flags) is
  the same after the call as before, so compiling the receiver gives the same source and
  flags. The same holds for every other instance \<open>k\<close> that existed before the call, so an
  expression can be shared and branched from any number of times.
\<close>

theorem fluent_call_leaves_receiver:
  assumes "call f s this m = Inr (r', s')" and "this < length (objs s)" and "k < length (objs s)"
  shows "rootNode s' this = rootNode s this \<and> compile s' this = compile s this
       \<and> rootNode s' k = rootNode s k \<and> compile s' k = compile s k
       \<and> length (objs s) \<le> r' \<and> r' < length (objs s')"
proof -
  from call_extends [OF assms(1)] obtain ys where
    s': "s' = s\<lparr>objs := objs s @ ys\<rparr>" and r': "r' = length (objs s) + length ys - 1" and "ys \<noteq> []"
    by blast
  then show ?thesis
    using assms(2,3) by (cases ys) (simp_all add: rootNode_def compile_def nth_append)
qed

text \<open>The theorem at \<^verbatim>\<open>e.then("a")\<close> for \<^verbatim>\<open>e = Sx.empty.assertEndOfLine(true)\<close>, with the
  static \<^verbatim>\<open>Sx.empty\<close> as the other instance: \<open>e\<close> compiles to \<^verbatim>\<open>/$/gi\<close> before and after.\<close>

theorem fluent_call_leaves_receiver_witness:
  "\<exists>r' s'. call (\<lambda>n. []) (snd anchored) (fst anchored) (Then (JString ''a'')) = Inr (r', s')
      \<and> fst anchored < length (objs (snd anchored)) \<and> empty_ref < length (objs (snd anchored))
      \<and> rootNode s' (fst anchored) = rootNode (snd anchored) (fst anchored)
      \<and> compile s' (fst anchored) = compile (snd anchored) (fst anchored)
      \<and> compile (snd anchored) (fst anchored) = Inr (''$'', ''gi'')
      \<and> rootNode s' empty_ref = rootNode (snd anchored) empty_ref
      \<and> compile s' empty_ref = compile (snd anchored) empty_ref
      \<and> length (objs (snd anchored)) \<le> r' \<and> r' < length (objs s')"
proof -
  obtain r' s' where
    c: "call (\<lambda>n. []) (snd anchored) (fst anchored) (Then (JString ''a'')) = Inr (r', s')"
    by (cases "then_sx (\<lambda>n. []) (snd anchored) (fst anchored) (JString ''a'')") simp
  have a: "fst anchored < length (objs (snd anchored))"
    and b: "empty_ref < length (objs (snd anchored))"
    by (simp_all add: anchored_eq empty_ref_def objs_init_state)
  have d: "compile (snd anchored) (fst anchored) = Inr (''$'', ''gi'')"
    by (simp add: compile_def anchored_eq stringify_def stringifyFlags_def rootNode_def
        objs_init_state)
  show ?thesis
    using fluent_call_leaves_receiver [OF c a b] c a b d by blast
qed

subsection \<open>A native regular expression as input\<close>

lemma endsWith_iff: "endsWith s c \<longleftrightarrow> s \<noteq> [] \<and> last s = c"
  by (cases s rule: rev_cases) (simp_all add: endsWith_def)

lemma startsWith_iff: "startsWith s c \<longleftrightarrow> s \<noteq> [] \<and> hd s = c"
  by (cases s) (simp_all add: startsWith_def)

lemma split_anchors:
  "(if startsWith s CHR ''^'' then ''^'' else []) @ dropTrailing CHR ''$'' (dropLeading CHR ''^'' s)
     @ (if endsWith s CHR ''$'' then ''$'' else []) = s"
proof (cases s)
  case Nil
  then show ?thesis by (simp add: startsWith_def endsWith_def dropLeading_def dropTrailing_def)
next
  case (Cons x xs)
  show ?thesis
  proof (cases "xs = []")
    case True
    with Cons show ?thesis
      by (auto simp: startsWith_def endsWith_def dropLeading_def dropTrailing_def)
  next
    case False
    then have "last xs = CHR ''$'' \<Longrightarrow> butlast xs @ ''$'' = xs"
      by (metis append_butlast_last_id)
    with Cons False show ?thesis
      by (auto simp: startsWith_iff endsWith_iff dropLeading_def dropTrailing_def)
  qed
qed

lemma render_createRoot_raw:
  "render (node (createRoot \<lparr>p_source = Some t, p_node = None, p_flags = fl, p_prefix = pf,
      p_suffix = sf, p_sanitize = Some False\<rparr>)) = t"
  by (simp add: createRoot_def)

text \<open>
  Claim C5, as amended. For every native regular expression whose source is not
  \<^verbatim>\<open>(?:)\<close> (the host's text for the empty pattern, which \<^verbatim>\<open>#preSanitize\<close> reads as the
  empty source), \<^verbatim>\<open>#preSanitize\<close> takes a leading \<^verbatim>\<open>^\<close> of the source as the prefix and a
  trailing \<^verbatim>\<open>$\<close> as the suffix, hands on the rest of the source as it is, not to be
  escaped, and hands on the flags of the regular expression. The root wrapper made of
  them has that prefix, that suffix and those flags, and prefix, rendered node and suffix
  together are the source again.
\<close>

theorem regexp_input_is_split_not_escaped:
  assumes "re_source re \<noteq> ''(?:)''"
  shows "p_prefix (preSanitize f (JRegExp re))
           = Some (if startsWith (re_source re) CHR ''^'' then ''^'' else [])
       \<and> p_suffix (preSanitize f (JRegExp re))
           = Some (if endsWith (re_source re) CHR ''$'' then ''$'' else [])
       \<and> p_source (preSanitize f (JRegExp re))
           = Some (dropTrailing CHR ''$'' (dropLeading CHR ''^'' (re_source re)))
       \<and> p_sanitize (preSanitize f (JRegExp re)) = Some False
       \<and> p_flags (preSanitize f (JRegExp re)) = Some (re_flags re)
       \<and> prefix (createRoot (preSanitize f (JRegExp re)))
            @ render (node (createRoot (preSanitize f (JRegExp re))))
            @ suffix (createRoot (preSanitize f (JRegExp re))) = re_source re
       \<and> prefix (createRoot (preSanitize f (JRegExp re)))
           = (if startsWith (re_source re) CHR ''^'' then ''^'' else [])
       \<and> suffix (createRoot (preSanitize f (JRegExp re)))
           = (if endsWith (re_source re) CHR ''$'' then ''$'' else [])
       \<and> flags (createRoot (preSanitize f (JRegExp re))) = re_flags re"
proof -
  let ?s = "re_source re"
  have p: "preSanitize f (JRegExp re) =
      \<lparr>p_source = Some (dropTrailing CHR ''$'' (dropLeading CHR ''^'' ?s)),
       p_node = None, p_flags = Some (re_flags re),
       p_prefix = Some (if startsWith ?s CHR ''^'' then ''^'' else []),
       p_suffix = Some (if endsWith ?s CHR ''$'' then ''$'' else []),
       p_sanitize = Some False\<rparr>"
    using assms by (simp add: preSanitize_def Let_def)
  have r: "render (node (createRoot (preSanitize f (JRegExp re))))
      = dropTrailing CHR ''$'' (dropLeading CHR ''^'' ?s)"
    unfolding p by (rule render_createRoot_raw)
  have a: "prefix (createRoot (preSanitize f (JRegExp re)))
      = (if startsWith ?s CHR ''^'' then ''^'' else [])"
    and b: "suffix (createRoot (preSanitize f (JRegExp re)))
      = (if endsWith ?s CHR ''$'' then ''$'' else [])"
    and c: "flags (createRoot (preSanitize f (JRegExp re))) = re_flags re"
    unfolding p by (simp_all add: createRoot_def)
  show ?thesis
    unfolding r a b c using split_anchors [of ?s] by (simp add: p)
qed

text \<open>The theorem at \<^verbatim>\<open>/^test_expr$/m\<close>.\<close>

theorem regexp_input_is_split_witness:
  "re_source \<lparr>re_source = ''^test_expr$'', re_flags = ''m''\<rparr> \<noteq> ''(?:)''
   \<and> createRoot (preSanitize (\<lambda>n. []) (JRegExp \<lparr>re_source = ''^test_expr$'', re_flags = ''m''\<rparr>))
       = \<lparr>node = Literal ''test_expr'' False, prefix = ''^'', suffix = ''$'', flags = ''m''\<rparr>
   \<and> prefix (createRoot (preSanitize (\<lambda>n. []) (JRegExp \<lparr>re_source = ''^test_expr$'', re_flags = ''m''\<rparr>)))
       @ render (node (createRoot (preSanitize (\<lambda>n. []) (JRegExp \<lparr>re_source = ''^test_expr$'', re_flags = ''m''\<rparr>))))
       @ suffix (createRoot (preSanitize (\<lambda>n. []) (JRegExp \<lparr>re_source = ''^test_expr$'', re_flags = ''m''\<rparr>)))
       = ''^test_expr$''"
proof -
  have h: "re_source \<lparr>re_source = ''^test_expr$'', re_flags = ''m''\<rparr> \<noteq> ''(?:)''" by simp
  have e: "createRoot (preSanitize (\<lambda>n. []) (JRegExp \<lparr>re_source = ''^test_expr$'', re_flags = ''m''\<rparr>))
       = \<lparr>node = Literal ''test_expr'' False, prefix = ''^'', suffix = ''$'', flags = ''m''\<rparr>"
    by (simp add: preSanitize_def createRoot_def startsWith_def endsWith_def dropLeading_def
        dropTrailing_def)
  show ?thesis
    using regexp_input_is_split_not_escaped [OF h, of "\<lambda>n. []"] h e by simp
qed

text \<open>The claim as it was stated fails at the regular expression whose source is
  \<^verbatim>\<open>(?:)\<close>: the source handed on is empty, and so is what the root wrapper renders.\<close>

theorem empty_group_source_is_dropped:
  "p_source (preSanitize (\<lambda>n. []) (JRegExp \<lparr>re_source = ''(?:)'', re_flags = []\<rparr>)) = Some []
   \<and> node (createRoot (preSanitize (\<lambda>n. []) (JRegExp \<lparr>re_source = ''(?:)'', re_flags = []\<rparr>))) = Empty
   \<and> prefix (createRoot (preSanitize (\<lambda>n. []) (JRegExp \<lparr>re_source = ''(?:)'', re_flags = []\<rparr>)))
       @ render (node (createRoot (preSanitize (\<lambda>n. []) (JRegExp \<lparr>re_source = ''(?:)'', re_flags = []\<rparr>))))
       @ suffix (createRoot (preSanitize (\<lambda>n. []) (JRegExp \<lparr>re_source = ''(?:)'', re_flags = []\<rparr>)))
       \<noteq> re_source \<lparr>re_source = ''(?:)'', re_flags = []\<rparr>"
  by (simp add: preSanitize_def createRoot_def startsWith_def endsWith_def dropLeading_def
      dropTrailing_def)


subsection \<open>An unsupported value as input\<close>

text \<open>
  Claim C6, as amended. In every state a process can reach, the entry point, given a
  value that is not a string, a number, a native regular expression or an expression
  instance, answers with the static empty expression, whose node is \<open>Empty\<close>; it creates
  no instance and cannot raise. The call writes the usage warning when the value is
  neither \<^verbatim>\<open>undefined\<close> nor \<^verbatim>\<open>null\<close>, the process does not run in production and the latch
  is not set yet, and writes nothing otherwise. Once such a value has been given outside
  production, no later call with an unsupported value writes anything, whatever the
  process did in between; the console never holds more than the one warning.
\<close>

theorem unsupported_input_gives_empty_and_warns_once:
  assumes "evolves f (init_state env) s" and "\<not> supported v"
    and "evolves f (snd (Sx f s v)) t" and "\<not> supported v'"
  shows "fst (Sx f s v) = empty_ref
       \<and> node (rootNode (snd (Sx f s v)) (fst (Sx f s v))) = Empty
       \<and> objs (snd (Sx f s v)) = objs s
       \<and> console (snd (Sx f s v)) =
           console s @ (if \<not> isNullish v \<and> env \<noteq> ''production'' \<and> \<not> warned s
                        then [argTypeWarning] else [])
       \<and> (\<not> isNullish v \<and> env \<noteq> ''production'' \<longrightarrow> console (snd (Sx f t v')) = console t)
       \<and> length (console (snd (Sx f t v'))) \<le> 1"
proof -
  from evolves_objs [OF assms(1)] obtain ys where o: "objs s = objs (init_state env) @ ys" ..
  have e: "node_env s = env"
    using evolves_env [OF assms(1)] by (simp add: init_state_fields)
  have n: "node (rootNode s empty_ref) = Empty"
    by (simp add: rootNode_def o objs_init_state empty_ref_def)
  have first: "Sx f s v = (empty_ref, if \<not> isNullish v \<and> env \<noteq> ''production'' then warnArgType s else s)"
    using assms(2) e by (simp add: Sx_unsupported)
  have w: "\<not> isNullish v \<and> env \<noteq> ''production'' \<longrightarrow> warned (snd (Sx f s v))"
    by (simp add: first warnArgType_def writeWarning_def)
  have t: "warned (snd (Sx f s v)) \<longrightarrow> warned t"
    using evolves_warned [OF assms(3)] by blast
  have et: "node_env t = env"
    using evolves_env [OF assms(3)] e by (simp add: Sx_fields)
  have later: "Sx f t v' = (empty_ref, if \<not> isNullish v' \<and> env \<noteq> ''production'' then warnArgType t else t)"
    using assms(4) et by (simp add: Sx_unsupported)
  have "evolves f (init_state env) (snd (Sx f t v'))"
    using assms(1,3) by (blast intro: evolves.entry evolves_trans)
  from evolves_console [OF this] have once: "length (console (snd (Sx f t v'))) \<le> 1"
    by (simp add: init_state_fields)
  show ?thesis
    using n w t once by (auto simp: first later warnArgType_def writeWarning_def rootNode_def)
qed

text \<open>The theorem in a fresh development process, at \<^verbatim>\<open>Sx(true)\<close> followed by
  \<^verbatim>\<open>Sx({})\<close>: the first call writes the warning, the second writes nothing.\<close>

theorem unsupported_input_witness:
  "evolves (\<lambda>n. []) (init_state ''development'') (init_state ''development'')
   \<and> \<not> supported (JBool True)
   \<and> evolves (\<lambda>n. []) (snd (Sx (\<lambda>n. []) (init_state ''development'') (JBool True)))
        (snd (Sx (\<lambda>n. []) (init_state ''development'') (JBool True)))
   \<and> \<not> supported JObject
   \<and> fst (Sx (\<lambda>n. []) (init_state ''development'') (JBool True)) = empty_ref
   \<and> node (rootNode (snd (Sx (\<lambda>n. []) (init_state ''development'') (JBool True)))
        (fst (Sx (\<lambda>n. []) (init_state ''development'') (JBool True)))) = Empty
   \<and> console (snd (Sx (\<lambda>n. []) (init_state ''development'') (JBool True))) = [argTypeWarning]
   \<and> console (snd (Sx (\<lambda>n. []) (snd (Sx (\<lambda>n. []) (init_state ''development'') (JBool True))) JObject))
       = [argTypeWarning]"
proof -
  let ?s = "init_state ''development''"
  have a: "evolves (\<lambda>n. []) ?s ?s" by (rule evolves.same)
  have b: "\<not> supported (JBool True)" and d: "\<not> supported JObject"
    by (simp_all add: supported_def)
  have c: "evolves (\<lambda>n. []) (snd (Sx (\<lambda>n. []) ?s (JBool True))) (snd (Sx (\<lambda>n. []) ?s (JBool True)))"
    by (rule evolves.same)
  have e: "\<not> isNullish (JBool True)" by (simp add: isNullish_def)
  have g: "''development'' \<noteq> ''production''" by simp
  note th = unsupported_input_gives_empty_and_warns_once [OF a b c d]
  from th have t1: "fst (Sx (\<lambda>n. []) ?s (JBool True)) = empty_ref"
    and t2: "node (rootNode (snd (Sx (\<lambda>n. []) ?s (JBool True))) (fst (Sx (\<lambda>n. []) ?s (JBool True)))) = Empty"
    by blast+
  from th e g have t3: "console (snd (Sx (\<lambda>n. []) ?s (JBool True))) = console ?s @ [argTypeWarning]"
    by (simp only: init_state_fields if_True simp_thms)
  from th e g have t4:
    "console (snd (Sx (\<lambda>n. []) (snd (Sx (\<lambda>n. []) ?s (JBool True))) JObject))
       = console (snd (Sx (\<lambda>n. []) ?s (JBool True)))"
    by blast
  show ?thesis
    using a b c d t1 t2 t3 t4 by (simp only: init_state_fields append_Nil simp_thms)
qed

text \<open>The claim as it was stated fails at \<^verbatim>\<open>Sx(undefined)\<close> and \<^verbatim>\<open>Sx(null)\<close>, first calls in a
  fresh development process, and at \<^verbatim>\<open>Sx(true)\<close>, the first call in a production process:
  none of them writes a warning.\<close>

theorem undefined_input_is_not_warned:
  "\<not> supported JUndefined \<and> \<not> supported (JBool True)
   \<and> warned (init_state ''development'') = False
   \<and> console (snd (Sx (\<lambda>n. []) (init_state ''development'') JUndefined)) = []
   \<and> console (snd (Sx (\<lambda>n. []) (init_state ''development'') JNull)) = []
   \<and> console (snd (Sx (\<lambda>n. []) (init_state ''production'') (JBool True))) = []"
  by (simp add: Sx_def supported_def isNullish_def init_state_fields)


subsection \<open>The flag set\<close>

lemma addFlags_idem: "addFlags (addFlags r fs) fs = addFlags r fs"
proof -
  have "filter (\<lambda>c. c \<notin> set (flags r) \<and> c \<notin> set fs) (remdups fs) = []"
    by (simp add: filter_empty_conv)
  then show ?thesis by (simp add: addFlags_def)
qed

lemma addFlags_set: "set (flags (addFlags r fs)) = set (flags r) \<union> set fs"
  by (auto simp: addFlags_def)

lemma removeFlags_set: "set (flags (removeFlags r fs)) = set (flags r) - set fs"
  by (auto simp: removeFlags_def)

lemma flags_distinct:
  "distinct (flags r) \<Longrightarrow> distinct (flags (addFlags r fs))"
  "distinct (flags r) \<Longrightarrow> distinct (flags (removeFlags r fs))"
  by (auto simp: addFlags_def removeFlags_def)

lemma stringifyFlags_set: "set a = set b \<Longrightarrow> stringifyFlags a = stringifyFlags b"
  by (metis stringifyFlags_def sorted_list_of_set_sort_remdups)

lemma call_flags:
  assumes "call f s this m = Inr (r', s')"
  shows "flags (rootNode s' r') =
           (case m of
              AddFlag fl \<Rightarrow> flags (addFlags (rootNode s this) (orDefault [] fl))
            | RemoveFlag fl \<Rightarrow> flags (removeFlags (rootNode s this) fl)
            | WithAnyCase e \<Rightarrow>
                (if orDefault True e then flags (addFlags (rootNode s this) ''i'')
                 else flags (removeFlags (rootNode s this) ''i''))
            | StopAtFirst e \<Rightarrow>
                (if orDefault True e then flags (addFlags (rootNode s this) ''g'')
                 else flags (removeFlags (rootNode s this) ''g''))
            | SearchOneLine e \<Rightarrow>
                (if orDefault True e then flags (removeFlags (rootNode s this) ''m'')
                 else flags (addFlags (rootNode s this) ''m''))
            | _ \<Rightarrow> flags (rootNode s this))"
  using assms
  by (cases m)
     (auto simp: operation_defs from_root_eq of_value_eq rootNode_def nth_append
                 setNode_def setSuffix_def setPrefix_def orDefault_def
           split: prod.splits sum.splits jsvalue.splits if_splits option.splits)

lemma call_flags_distinct:
  assumes "call f s this m = Inr (r', s')" and "distinct (flags (rootNode s this))"
  shows "distinct (flags (rootNode s' r'))"
  using call_flags [OF assms(1)] assms(2)
  by (cases m) (simp_all add: flags_distinct)

text \<open>
  Claim C7. A root wrapper made without flags starts from the baseline \<^verbatim>\<open>gi\<close>. \<^verbatim>\<open>addFlags\<close>
  is idempotent, adds exactly the characters it is given and \<^verbatim>\<open>removeFlags\<close> removes
  exactly those; both keep a duplicate-free flag string duplicate-free, and so does every
  fluent method: the flags of its answer have no duplicates when those of its receiver
  have none. Two flag strings with the same members serialize to the same flag string.
  \<^verbatim>\<open>addFlag\<close> called twice with the same flag answers with the same root wrapper as called
  once.
\<close>

theorem flags_form_a_set:
  "flags (createRoot (p\<lparr>p_flags := None\<rparr>)) = ''gi''
   \<and> ((\<forall>re. v \<noteq> JRegExp re) \<and> (\<forall>q. v \<noteq> JExpr q) \<longrightarrow>
        flags (rootNode (snd (of_value f s v)) (fst (of_value f s v))) = ''gi'')
   \<and> addFlags (addFlags r fs) fs = addFlags r fs
   \<and> set (flags (addFlags r fs)) = set (flags r) \<union> set fs
   \<and> set (flags (removeFlags r fs)) = set (flags r) - set fs
   \<and> (distinct (flags r) \<longrightarrow>
        distinct (flags (addFlags r fs)) \<and> distinct (flags (removeFlags r fs)))
   \<and> (call f s this m = Inr (r', s') \<and> distinct (flags (rootNode s this)) \<longrightarrow>
        distinct (flags (rootNode s' r')))
   \<and> (set (flags r) = set (flags r2) \<longrightarrow> stringifyFlags (flags r) = stringifyFlags (flags r2))
   \<and> rootNode (snd (addFlag (snd (addFlag s this fl)) (fst (addFlag s this fl)) fl))
        (fst (addFlag (snd (addFlag s this fl)) (fst (addFlag s this fl)) fl))
      = rootNode (snd (addFlag s this fl)) (fst (addFlag s this fl))"
proof -
  have twice: "rootNode (snd (addFlag (snd (addFlag s this fl)) (fst (addFlag s this fl)) fl))
        (fst (addFlag (snd (addFlag s this fl)) (fst (addFlag s this fl)) fl))
      = rootNode (snd (addFlag s this fl)) (fst (addFlag s this fl))"
    unfolding addFlag_def new_root by (rule addFlags_idem)
  have base: "flags (createRoot (p\<lparr>p_flags := None\<rparr>)) = ''gi''"
    by (simp add: createRoot_def)
  have start: "(\<forall>re. v \<noteq> JRegExp re) \<and> (\<forall>q. v \<noteq> JExpr q) \<longrightarrow>
        flags (rootNode (snd (of_value f s v)) (fst (of_value f s v))) = ''gi''"
    by (cases v)
       (simp_all add: of_value_eq rootNode_def preSanitize_def createRoot_def no_params_def)
  show ?thesis
    using twice base start addFlags_idem [of r fs] addFlags_set [of r fs] removeFlags_set [of r fs]
      flags_distinct [of r fs] call_flags_distinct [of f s this m r' s']
      stringifyFlags_set [of "flags r" "flags r2"]
    by blast
qed

text \<open>The theorem at \<^verbatim>\<open>Sx.empty.addFlag("i")\<close>, at the flag strings \<^verbatim>\<open>gi\<close> and \<^verbatim>\<open>ig\<close>, and
  at a root wrapper made with no arguments.\<close>

theorem flags_form_a_set_witness:
  "\<exists>r' s'. call (\<lambda>n. []) (init_state ''test'') empty_ref (AddFlag (Some ''i'')) = Inr (r', s')
      \<and> distinct (flags (rootNode (init_state ''test'') empty_ref))
      \<and> distinct (flags (rootNode s' r'))
      \<and> flags (rootNode s' r') = ''gi''
      \<and> distinct (flags \<lparr>node = Empty, prefix = [], suffix = [], flags = ''gi''\<rparr>)
      \<and> set (flags \<lparr>node = Empty, prefix = [], suffix = [], flags = ''gi''\<rparr>)
          = set (flags \<lparr>node = Empty, prefix = [], suffix = [], flags = ''ig''\<rparr>)
      \<and> stringifyFlags ''gi'' = stringifyFlags ''ig''
      \<and> stringifyFlags ''ig'' = ''gi''
      \<and> flags (createRoot no_params) = ''gi''
      \<and> flags (rootNode (snd (of_value (\<lambda>n. []) (init_state ''test'') (JString ''a'')))
            (fst (of_value (\<lambda>n. []) (init_state ''test'') (JString ''a'')))) = ''gi''
      \<and> flags (addFlags (addFlags \<lparr>node = Empty, prefix = [], suffix = [], flags = ''gi''\<rparr> ''i'') ''i'')
          = ''gi''"
proof -
  let ?s = "init_state ''test''"
  let ?R = "\<lparr>node = Empty, prefix = [], suffix = [], flags = ''gi''\<rparr>"
  let ?R2 = "\<lparr>node = Empty, prefix = [], suffix = [], flags = ''ig''\<rparr>"
  obtain r' s' where c: "call (\<lambda>n. []) ?s empty_ref (AddFlag (Some ''i'')) = Inr (r', s')"
    by (cases "addFlag ?s empty_ref (Some ''i'')") simp
  have e: "rootNode ?s empty_ref = ?R"
    by (simp add: rootNode_def objs_init_state empty_ref_def)
  have d: "distinct (flags (rootNode ?s empty_ref))" by (simp add: e)
  have dR: "distinct (flags ?R)" by simp
  have st: "set (flags ?R) = set (flags ?R2)" by auto
  note th = flags_form_a_set [of no_params "JString ''a''" "\<lambda>n. []" ?s ?R "''i''" empty_ref
      "AddFlag (Some ''i'')" r' s' ?R2]
  from th c d have 1: "distinct (flags (rootNode s' r'))" by blast
  from c have 2: "flags (rootNode s' r') = ''gi''"
    by (auto simp: addFlag_def from_root_eq rootNode_def objs_init_state empty_ref_def
        addFlags_def orDefault_def)
  from th st have "stringifyFlags (flags ?R) = stringifyFlags (flags ?R2)" by blast
  then have 3: "stringifyFlags ''gi'' = stringifyFlags ''ig''" by simp
  have 4: "stringifyFlags ''ig'' = ''gi''" by (simp add: stringifyFlags_def)
  from th have "flags (createRoot (no_params\<lparr>p_flags := None\<rparr>)) = ''gi''" by blast
  then have 5: "flags (createRoot no_params) = ''gi''" by (simp add: no_params_def)
  from th have "addFlags (addFlags ?R ''i'') ''i'' = addFlags ?R ''i''" by blast
  then have 6: "flags (addFlags (addFlags ?R ''i'') ''i'') = ''gi''" by (simp add: addFlags_def)
  from th have 7: "flags (rootNode (snd (of_value (\<lambda>n. []) ?s (JString ''a'')))
            (fst (of_value (\<lambda>n. []) ?s (JString ''a'')))) = ''gi''"
    by blast
  show ?thesis using c d 1 2 dR st 3 4 5 6 7 by blast
qed


subsection \<open>The bounds of a repetition\<close>

lemma toInt32_nonneg:
  assumes "0 \<le> q" and "q < 2 ^ 31"
  shows "toInt32 (JFin q) = \<lfloor>q\<rfloor> \<and> 0 \<le> toInt32 (JFin q)"
proof -
  have a: "0 \<le> \<lfloor>q\<rfloor>" using assms(1) by simp
  have "\<lfloor>q\<rfloor> < 2 ^ 31" using assms(2) by (simp add: floor_less_iff)
  with a have "(\<lfloor>q\<rfloor> + 2 ^ 31) mod (2 ^ 32 :: int) = \<lfloor>q\<rfloor> + 2 ^ 31"
    by (simp add: mod_pos_pos_trivial)
  with a assms(1) show ?thesis by (simp add: js_trunc_def)
qed

lemma repeat_root:
  "node (rootNode (snd (repeat s this (Some a) mx)) (fst (repeat s this (Some a) mx)))
     = Quantified (node (rootNode s this)) (nonNegative (toInt32 a))
         (map_option (\<lambda>b. nonNegative (toInt32 b)) mx) False"
  unfolding repeat_def new_root
  by (cases mx) (simp_all add: setNode_def getNode_def repeat_node_def intOrUndefined_def)

lemma repeatExactly_root:
  "node (rootNode (snd (repeatExactly s this (Some a))) (fst (repeatExactly s this (Some a))))
     = Quantified (node (rootNode s this)) (nonNegative (toInt32 a))
         (Some (nonNegative (toInt32 a))) False"
  unfolding repeatExactly_def new_root
  by (simp add: setNode_def getNode_def repeatExact_def repeat_node_def intOrUndefined_def)

text \<open>
  Claim C8. For every numeric input, \<^verbatim>\<open>repeat(min, max)\<close> and \<^verbatim>\<open>repeatExactly(n)\<close> build
  the \<open>Quantified\<close> node from bounds that were coerced first: the adapter takes each
  bound it is given to an integer with \<^verbatim>\<open>| 0\<close>, and the constructor takes that integer to
  a non-negative one, so the bounds stored are integers not below 0. A bound from 0 up
  to (not including) \<open>2 ^ 31\<close> is stored as its integer part. An omitted max is stored
  as no upper bound, which is unbounded repetition. \<^verbatim>\<open>repeatExactly\<close> stores the same
  integer as min and as max; for an integer \<open>n\<close> from 0 up to (not including) \<open>2 ^ 31\<close>
  that integer is \<open>n\<close>.
\<close>

theorem repeat_bounds_are_non_negative:
  "node (rootNode (snd (repeat s this (Some a) mx)) (fst (repeat s this (Some a) mx)))
     = Quantified (node (rootNode s this)) (nonNegative (toInt32 a))
         (map_option (\<lambda>b. nonNegative (toInt32 b)) mx) False
   \<and> node (rootNode (snd (repeat s this (Some a) None)) (fst (repeat s this (Some a) None)))
     = Quantified (node (rootNode s this)) (nonNegative (toInt32 a)) None False
   \<and> node (rootNode (snd (repeatExactly s this (Some a))) (fst (repeatExactly s this (Some a))))
     = Quantified (node (rootNode s this)) (nonNegative (toInt32 a))
         (Some (nonNegative (toInt32 a))) False
   \<and> 0 \<le> nonNegative (toInt32 a)
   \<and> (0 \<le> q \<and> q < 2 ^ 31 \<longrightarrow> nonNegative (toInt32 (JFin q)) = \<lfloor>q\<rfloor>)
   \<and> (0 \<le> n \<and> n < 2 ^ 31 \<longrightarrow>
        node (rootNode (snd (repeatExactly s this (Some (JFin (of_int n)))))
          (fst (repeatExactly s this (Some (JFin (of_int n))))))
        = Quantified (node (rootNode s this)) n (Some n) False)"
proof -
  have 1: "0 \<le> nonNegative (toInt32 a)" by (simp add: nonNegative_def)
  have 2: "nonNegative (toInt32 (JFin q)) = \<lfloor>q\<rfloor>" if "0 \<le> q \<and> q < 2 ^ 31"
    using toInt32_nonneg [of q] that by (simp add: nonNegative_def)
  have 3: "nonNegative (toInt32 (JFin (of_int n))) = n" if "0 \<le> n \<and> n < 2 ^ 31"
    using toInt32_nonneg [of "of_int n"] that by (simp add: nonNegative_def)
  show ?thesis
    using 1 2 3 repeat_root [of s this a mx] repeat_root [of s this a None]
      repeatExactly_root [of s this a] repeatExactly_root [of s this "JFin (of_int n)"]
    by simp
qed

text \<open>The theorem at \<^verbatim>\<open>Sx.empty.repeat(2.5)\<close>, \<^verbatim>\<open>Sx.empty.repeat(-1, 3)\<close> and
  \<^verbatim>\<open>Sx.empty.repeatExactly(8)\<close>.\<close>

theorem repeat_bounds_are_non_negative_witness:
  "(0 :: rat) \<le> 5 / 2 \<and> (5 / 2 :: rat) < 2 ^ 31 \<and> (0 :: int) \<le> 8 \<and> (8 :: int) < 2 ^ 31
   \<and> node (rootNode (snd (repeat (init_state ''test'') empty_ref (Some (JFin (5 / 2))) None))
        (fst (repeat (init_state ''test'') empty_ref (Some (JFin (5 / 2))) None)))
       = Quantified Empty 2 None False
   \<and> node (rootNode (snd (repeat (init_state ''test'') empty_ref (Some (JFin (- 1))) (Some (JFin 3))))
        (fst (repeat (init_state ''test'') empty_ref (Some (JFin (- 1))) (Some (JFin 3)))))
       = Quantified Empty 0 (Some 3) False
   \<and> node (rootNode (snd (repeatExactly (init_state ''test'') empty_ref (Some (JFin 8))))
        (fst (repeatExactly (init_state ''test'') empty_ref (Some (JFin 8)))))
       = Quantified Empty 8 (Some 8) False"
proof -
  let ?s = "init_state ''test''"
  have h: "(0 :: rat) \<le> 5 / 2 \<and> (5 / 2 :: rat) < 2 ^ 31" by simp
  have k: "(0 :: int) \<le> 8 \<and> (8 :: int) < 2 ^ 31" by simp
  have f: "\<lfloor>5 / 2 :: rat\<rfloor> = 2" by (rule floor_unique) simp_all
  have e: "node (rootNode ?s empty_ref) = Empty"
    by (simp add: rootNode_def objs_init_state empty_ref_def)
  have m: "nonNegative (toInt32 (JFin (- 1))) = 0" "nonNegative (toInt32 (JFin 3)) = 3"
    by (simp_all add: nonNegative_def js_trunc_def)
  from repeat_bounds_are_non_negative [of ?s empty_ref "JFin (5 / 2)" None "5 / 2" 8] h f
  have t: "nonNegative (toInt32 (JFin (5 / 2))) = 2" by simp
  from repeat_bounds_are_non_negative [of ?s empty_ref "JFin (5 / 2)" None "5 / 2" 8]
  have 1: "node (rootNode (snd (repeat ?s empty_ref (Some (JFin (5 / 2))) None))
        (fst (repeat ?s empty_ref (Some (JFin (5 / 2))) None)))
       = Quantified Empty 2 None False"
    by (simp only: e t option.map)
  from repeat_bounds_are_non_negative [of ?s empty_ref "JFin (- 1)" "Some (JFin 3)" "5 / 2" 8]
  have 2: "node (rootNode (snd (repeat ?s empty_ref (Some (JFin (- 1))) (Some (JFin 3))))
        (fst (repeat ?s empty_ref (Some (JFin (- 1))) (Some (JFin 3)))))
       = Quantified Empty 0 (Some 3) False"
    by (simp only: e m option.map)
  from repeat_bounds_are_non_negative [of ?s empty_ref "JFin 8" None "5 / 2" 8] k
  have "node (rootNode (snd (repeatExactly ?s empty_ref (Some (JFin (of_int 8)))))
        (fst (repeatExactly ?s empty_ref (Some (JFin (of_int 8))))))
       = Quantified (node (rootNode ?s empty_ref)) 8 (Some 8) False"
    by blast
  then have 3: "node (rootNode (snd (repeatExactly ?s empty_ref (Some (JFin 8))))
        (fst (repeatExactly ?s empty_ref (Some (JFin 8)))))
       = Quantified Empty 8 (Some 8) False"
    by (simp only: e of_int_numeral)
  show ?thesis using h k 1 2 3 by blast
qed


subsection \<open>Character ranges\<close>

lemma valid_pairs_iff:
  assumes "even (length xs)"
  shows "list_all validRange (pairUp xs) \<longleftrightarrow>
         \<not> (\<exists>lo hi. (Some lo, Some hi) \<in> set (pairUp xs) \<and> lexAfter lo hi)"
  using assms by (induction xs rule: pairUp.induct) auto

text \<open>
  Claim C9, as amended. \<^verbatim>\<open>charOfRanges\<close> and \<^verbatim>\<open>charNotOfRanges\<close> fail with an
  \<open>AssertionError\<close> (\<^verbatim>\<open>Expected even number of elements\<close>), not an \<open>InvalidRangeError\<close>, when
  the number of boundary values supplied, all arrays flattened, is odd; the failure is
  that of \<^verbatim>\<open>makeRanges\<close>, before the constructor of the node is called. When the number is
  even, they fail with an \<open>InvalidRangeError\<close> if some pair has its lower bound
  lexicographically after its upper bound, and otherwise answer with the receiver's node
  followed by the class of the ranges.
\<close>

theorem char_ranges_failures:
  "(odd (length (flatAll rs)) \<longrightarrow>
      makeRanges rs = Inl (AssertionError ''Expected even number of elements'')
      \<and> charRanges s this rs negate = Inl (AssertionError ''Expected even number of elements''))
   \<and> (even (length (flatAll rs))
        \<and> (\<exists>lo hi. (Some lo, Some hi) \<in> set (pairUp (flatAll rs)) \<and> lexAfter lo hi) \<longrightarrow>
      charRanges s this rs negate = Inl InvalidRangeError)
   \<and> (even (length (flatAll rs))
        \<and> \<not> (\<exists>lo hi. (Some lo, Some hi) \<in> set (pairUp (flatAll rs)) \<and> lexAfter lo hi) \<longrightarrow>
      charRanges s this rs negate =
        Inr (from_root s (setNode (rootNode s this)
          (then_node (node (rootNode s this))
             (CharClass [] (List.map_filter rangeBounds (pairUp (flatAll rs))) negate)))))
   \<and> charOfRanges s this rs = charRanges s this rs False
   \<and> charNotOfRanges s this rs = charRanges s this rs True"
proof -
  have odd: "odd (length (flatAll rs)) \<Longrightarrow>
      makeRanges rs = Inl (AssertionError ''Expected even number of elements'')"
    by (simp add: makeRanges_def Let_def odd_iff_mod_2_eq_one)
  have even: "even (length (flatAll rs)) \<Longrightarrow> makeRanges rs = Inr (pairUp (flatAll rs))"
    by (simp add: makeRanges_def Let_def even_iff_mod_2_eq_zero)
  show ?thesis
    using odd even valid_pairs_iff [of "flatAll rs"]
    by (auto simp: charRanges_def charOfRanges_def charNotOfRanges_def ranges_def getNode_def)
qed

text \<open>The theorem at \<^verbatim>\<open>charOfRanges(["a","f"],["0"])\<close>, \<^verbatim>\<open>charOfRanges(["z","a"])\<close> and
  \<^verbatim>\<open>charNotOfRanges(["0","9"])\<close>, each called on \<^verbatim>\<open>Sx.empty\<close>.\<close>

theorem char_ranges_failures_witness:
  "odd (length (flatAll [Bounds [Bound ''a'', Bound ''f''], Bounds [Bound ''0'']]))
   \<and> charOfRanges (init_state ''test'') empty_ref [Bounds [Bound ''a'', Bound ''f''], Bounds [Bound ''0'']]
       = Inl (AssertionError ''Expected even number of elements'')
   \<and> even (length (flatAll [Bounds [Bound ''z'', Bound ''a'']]))
   \<and> (Some ''z'', Some ''a'') \<in> set (pairUp (flatAll [Bounds [Bound ''z'', Bound ''a'']]))
   \<and> lexAfter ''z'' ''a''
   \<and> charOfRanges (init_state ''test'') empty_ref [Bounds [Bound ''z'', Bound ''a'']]
       = Inl InvalidRangeError
   \<and> charNotOfRanges (init_state ''test'') empty_ref [Bounds [Bound ''0'', Bound ''9'']]
       = Inr (from_root (init_state ''test'')
           \<lparr>node = CharClass [] [(''0'', ''9'')] True, prefix = [], suffix = [], flags = ''gi''\<rparr>)"
proof -
  let ?s = "init_state ''test''"
  have o: "odd (length (flatAll [Bounds [Bound ''a'', Bound ''f''], Bounds [Bound ''0'']]))"
    by simp
  have e: "even (length (flatAll [Bounds [Bound ''z'', Bound ''a'']]))"
    and m: "(Some ''z'', Some ''a'') \<in> set (pairUp (flatAll [Bounds [Bound ''z'', Bound ''a'']]))"
    and l: "lexAfter ''z'' ''a''"
    by simp_all
  have e9: "even (length (flatAll [Bounds [Bound ''0'', Bound ''9'']]))"
    and n9: "\<not> (\<exists>lo hi. (Some lo, Some hi) \<in> set (pairUp (flatAll [Bounds [Bound ''0'', Bound ''9'']]))
               \<and> lexAfter lo hi)"
    by simp_all
  have r: "rootNode ?s empty_ref = \<lparr>node = Empty, prefix = [], suffix = [], flags = ''gi''\<rparr>"
    by (simp add: rootNode_def objs_init_state empty_ref_def)
  from char_ranges_failures [of "[Bounds [Bound ''a'', Bound ''f''], Bounds [Bound ''0'']]" ?s empty_ref False] o
  have w1: "charOfRanges ?s empty_ref [Bounds [Bound ''a'', Bound ''f''], Bounds [Bound ''0'']]
       = Inl (AssertionError ''Expected even number of elements'')"
    by simp
  have x: "\<exists>lo hi. (Some lo, Some hi) \<in> set (pairUp (flatAll [Bounds [Bound ''z'', Bound ''a'']]))
              \<and> lexAfter lo hi"
    using m l by (intro exI conjI)
  from char_ranges_failures [of "[Bounds [Bound ''z'', Bound ''a'']]" ?s empty_ref False]
  have "even (length (flatAll [Bounds [Bound ''z'', Bound ''a'']]))
        \<and> (\<exists>lo hi. (Some lo, Some hi) \<in> set (pairUp (flatAll [Bounds [Bound ''z'', Bound ''a'']]))
              \<and> lexAfter lo hi) \<longrightarrow>
      charOfRanges ?s empty_ref [Bounds [Bound ''z'', Bound ''a'']] = Inl InvalidRangeError"
    by (elim conjE) (simp only:)
  with e x
  have w2: "charOfRanges ?s empty_ref [Bounds [Bound ''z'', Bound ''a'']] = Inl InvalidRangeError"
    by (simp only: simp_thms)
  from char_ranges_failures [of "[Bounds [Bound ''0'', Bound ''9'']]" ?s empty_ref True] e9 n9
  have "charNotOfRanges ?s empty_ref [Bounds [Bound ''0'', Bound ''9'']]
       = Inr (from_root ?s (setNode (rootNode ?s empty_ref)
          (then_node (node (rootNode ?s empty_ref))
             (CharClass [] (List.map_filter rangeBounds (pairUp (flatAll [Bounds [Bound ''0'', Bound ''9'']]))) True))))"
    by simp
  then have w3: "charNotOfRanges ?s empty_ref [Bounds [Bound ''0'', Bound ''9'']]
       = Inr (from_root ?s
           \<lparr>node = CharClass [] [(''0'', ''9'')] True, prefix = [], suffix = [], flags = ''gi''\<rparr>)"
    by (simp add: r setNode_def List.map_filter_def)
  show ?thesis using o e m l w1 w2 w3 by blast
qed

text \<open>The claim as it was stated fails at \<^verbatim>\<open>Sx.empty.charOfRanges("a")\<close>: the error is an
  \<open>AssertionError\<close>.\<close>

theorem odd_count_is_assertion_error:
  "odd (length (flatAll [Bound ''a'']))
   \<and> charOfRanges (init_state ''test'') empty_ref [Bound ''a'']
       = Inl (AssertionError ''Expected even number of elements'')
   \<and> charOfRanges (init_state ''test'') empty_ref [Bound ''a''] \<noteq> Inl InvalidRangeError
   \<and> charNotOfRanges (init_state ''test'') empty_ref [Bounds [Bound ''a'', Bound ''z''], Bound ''0'']
       = Inl (AssertionError ''Expected even number of elements'')"
  by (simp add: charOfRanges_def charNotOfRanges_def charRanges_def makeRanges_def)


subsection \<open>An expression as input\<close>

text \<open>
  Claim C10. For an expression instance, \<^verbatim>\<open>SolidExpression.of\<close> and the entry point \<^verbatim>\<open>Sx\<close>
  answer with that very instance (the same reference) and change nothing: no instance is
  created and no root wrapper is built again. Hence \<^verbatim>\<open>of\<close> is idempotent: for every input
  \<open>v\<close>, applying \<^verbatim>\<open>of\<close> (or \<^verbatim>\<open>Sx\<close>) to the instance \<^verbatim>\<open>of(v)\<close> answers with that instance, in
  the state \<^verbatim>\<open>of(v)\<close> left.
\<close>

theorem of_expression_is_identity:
  "of_value f s (JExpr r) = (r, s) \<and> Sx f s (JExpr r) = (r, s)
   \<and> of_value f (snd (of_value f s v)) (JExpr (fst (of_value f s v))) = of_value f s v
   \<and> Sx f (snd (of_value f s v)) (JExpr (fst (of_value f s v))) = of_value f s v"
  by (simp add: of_value_def Sx_def isNullish_def supported_def)

text \<open>The theorem at the static \<^verbatim>\<open>Sx.empty\<close> and at \<^verbatim>\<open>of("a")\<close>, the eighth instance of a
  fresh process.\<close>

theorem of_expression_is_identity_witness:
  "of_value (\<lambda>n. []) (init_state ''test'') (JExpr empty_ref) = (empty_ref, init_state ''test'')
   \<and> Sx (\<lambda>n. []) (init_state ''test'') (JExpr empty_ref) = (empty_ref, init_state ''test'')
   \<and> of_value (\<lambda>n. []) (snd (of_value (\<lambda>n. []) (init_state ''test'') (JString ''a'')))
        (JExpr (fst (of_value (\<lambda>n. []) (init_state ''test'') (JString ''a''))))
       = of_value (\<lambda>n. []) (init_state ''test'') (JString ''a'')
   \<and> Sx (\<lambda>n. []) (snd (of_value (\<lambda>n. []) (init_state ''test'') (JString ''a'')))
        (JExpr (fst (of_value (\<lambda>n. []) (init_state ''test'') (JString ''a''))))
       = of_value (\<lambda>n. []) (init_state ''test'') (JString ''a'')
   \<and> fst (of_value (\<lambda>n. []) (init_state ''test'') (JString ''a'')) = 7"
  using of_expression_is_identity [of "\<lambda>n. []" "init_state ''test''" empty_ref "JString ''a''"]
  by (simp add: of_value_eq objs_init_state)


end
